theory Spec2Isabelle
  imports Main "HOL-Library.Char_ord" "HOL-Library.List_Lexorder"
begin

section \<open>Data model\<close>

text \<open>
  The chat server keeps its durable data in four MySQL tables (users, rooms, messages,
  active_sessions) and its live connections in one in-process JavaScript \<open>Map\<close>.
  Tables are lists of rows in storage order. JavaScript strings are modelled as
  \<^typ>\<open>string\<close>, one \<^typ>\<open>char\<close> per code unit below 256. Timestamps are seconds as
  \<^typ>\<open>int\<close>; the \<open>now\<close> argument of an operation is the clock reading (\<open>NOW()\<close>,
  \<open>CURRENT_TIMESTAMP\<close>, \<open>new Date()\<close>) of the handler run it belongs to. Console
  logging is not modelled.
\<close>

record user_row =
  u_id :: nat
  u_username :: string
  u_email :: string
  u_password_hash :: string
  u_avatar_url :: "string option"
  u_is_online :: bool
  u_last_seen :: int

record room_row =
  r_id :: nat
  r_name :: string
  r_created_by :: nat

record message_row =
  m_id :: nat
  m_user_id :: nat
  m_room_id :: nat
  m_message :: string
  m_message_type :: string
  m_timestamp :: int
  m_is_deleted :: bool

record session_row =
  s_session_id :: string
  s_user_id :: nat
  s_socket_id :: "string option"
  s_room_name :: "string option"
  s_ip_address :: "string option"
  s_user_agent :: "string option"
  s_created_at :: int
  s_last_activity :: int

record database =
  users :: "user_row list"
  rooms :: "room_row list"
  messages :: "message_row list"
  active_sessions :: "session_row list"

text \<open>
  What a rejected promise or a \<open>throw\<close> carries: a driver error with its \<open>code\<close> and
  \<open>sqlMessage\<close>, a \<open>TypeError\<close>, or a plain \<open>Error\<close> with its message.
\<close>

datatype js_error = MysqlError string string | TypeError string | Error string

fun error_code :: "js_error \<Rightarrow> string option" where
  "error_code (MysqlError c m) = Some c"
| "error_code (TypeError m) = None"
| "error_code (Error m) = None"

fun error_message :: "js_error \<Rightarrow> string" where
  "error_message (MysqlError c m) = m"
| "error_message (TypeError m) = m"
| "error_message (Error m) = m"

text \<open>
  A statement sent to the database can fail for reasons outside the program (the
  connection is lost, the server is down). Every model of a data-access function takes
  one flag per statement it sends; a set flag makes that statement reject with
  \<open>connection_lost\<close> and leaves the tables as they are.
\<close>

definition connection_lost :: js_error where
  "connection_lost = MysqlError ''PROTOCOL_CONNECTION_LOST'' ''Connection lost''"

text \<open>\<open>AUTO_INCREMENT\<close>: the id of a new row is one above the largest id in the table.\<close>

definition insertId :: "nat list \<Rightarrow> nat" where
  "insertId ids = Suc (foldr max ids 0)"

section \<open>JavaScript values the handlers compute with\<close>

text \<open>
  A number as \<open>parseInt\<close> can produce it: \<open>NaN\<close>, an infinity, or a double whose value
  is an integer; \<open>Num n\<close> stands for the double of value \<open>n\<close>.
\<close>

datatype jsnum = NaN | Num int | PosInfinity | NegInfinity

text \<open>
  The double nearest to a non-negative integer, ties to the even significand. Up to
  \<open>2^53\<close> every integer is a double. Beyond, the integer is shifted down to 54 bits,
  with a sticky flag for the bits shifted out, and the last bit decides the rounding of
  the 53 that stay.
\<close>

function normalize :: "int \<Rightarrow> bool \<Rightarrow> nat \<Rightarrow> int \<times> bool \<times> nat" where
  "normalize x sticky e =
     (if x < 2 ^ 54 then (x, sticky, e) else normalize (x div 2) (sticky \<or> odd x) (Suc e))"
  by pat_completeness auto
termination
  by (relation "measure (\<lambda>(x, sticky, e). nat x)") auto

declare normalize.simps [simp del]

definition round53 :: "int \<Rightarrow> int" where
  "round53 x =
     (if x < 2 ^ 53 then x
      else case normalize x False 0 of
        (y, sticky, e) \<Rightarrow>
          (if odd y \<and> (sticky \<or> odd (y div 2)) then y div 2 + 1 else y div 2) * 2 ^ Suc e)"

text \<open>
  Not every \<open>Num n\<close> is a number of the program: the integers that are doubles are those
  the rounding leaves alone.
\<close>

definition is_double :: "jsnum \<Rightarrow> bool" where
  "is_double x = (case x of Num n \<Rightarrow> round53 \<bar>n\<bar> = \<bar>n\<bar> | _ \<Rightarrow> True)"

text \<open>
  The number of a mathematical integer, as \<open>parseInt\<close> returns it: rounded to the nearest
  double (as V8 does; the language allows an approximation beyond 20 digits), an
  infinity from \<open>2^1024 - 2^970\<close> on.
\<close>

definition toNumber :: "int \<Rightarrow> jsnum" where
  "toNumber n =
     (if n \<ge> 2 ^ 1024 - 2 ^ 970 then PosInfinity
      else if n \<le> - (2 ^ 1024 - 2 ^ 970) then NegInfinity
      else if n < 0 then Num (- round53 (- n))
      else Num (round53 n))"

text \<open>\<open>x || d\<close> on numbers: \<open>NaN\<close> and zero are falsy.\<close>

definition or_default :: "jsnum \<Rightarrow> jsnum \<Rightarrow> jsnum" where
  "or_default x d = (if x = NaN \<or> x = Num 0 then d else x)"

fun Math_min :: "jsnum \<Rightarrow> jsnum \<Rightarrow> jsnum" where
  "Math_min NaN y = NaN"
| "Math_min x NaN = NaN"
| "Math_min NegInfinity y = NegInfinity"
| "Math_min x NegInfinity = NegInfinity"
| "Math_min PosInfinity y = y"
| "Math_min x PosInfinity = x"
| "Math_min (Num a) (Num b) = Num (min a b)"

fun Math_max :: "jsnum \<Rightarrow> jsnum \<Rightarrow> jsnum" where
  "Math_max NaN y = NaN"
| "Math_max x NaN = NaN"
| "Math_max PosInfinity y = PosInfinity"
| "Math_max x PosInfinity = PosInfinity"
| "Math_max NegInfinity y = y"
| "Math_max x NegInfinity = x"
| "Math_max (Num a) (Num b) = Num (max a b)"

text \<open>White space and line terminators among the code units below 256.\<close>

definition isWhiteSpace :: "char \<Rightarrow> bool" where
  "isWhiteSpace c = (of_char c \<in> {9, 10, 11, 12, 13, 32, 160 :: int})"

definition trim :: "string \<Rightarrow> string" where
  "trim s = rev (dropWhile isWhiteSpace (rev (dropWhile isWhiteSpace s)))"

definition digitValue :: "char \<Rightarrow> int option" where
  "digitValue c =
     (let k = (of_char c :: int) in
      if 48 \<le> k \<and> k \<le> 57 then Some (k - 48)
      else if 97 \<le> k \<and> k \<le> 122 then Some (k - 87)
      else if 65 \<le> k \<and> k \<le> 90 then Some (k - 55)
      else None)"

definition isDigitOf :: "int \<Rightarrow> char \<Rightarrow> bool" where
  "isDigitOf R c = (case digitValue c of None \<Rightarrow> False | Some v \<Rightarrow> v < R)"

definition digitsValue :: "int \<Rightarrow> string \<Rightarrow> int" where
  "digitsValue R Z = foldl (\<lambda>acc c. acc * R + (case digitValue c of None \<Rightarrow> 0 | Some v \<Rightarrow> v)) 0 Z"

text \<open>
  \<open>parseInt(string, radix)\<close> on a string; radix 0 stands for a missing radix. Leading
  white space is dropped, a sign is read, a \<open>0x\<close> prefix switches to radix 16 when the
  radix is missing or 16, and the longest prefix of digits of the radix is the value;
  with no digit the result is \<open>NaN\<close>.
\<close>

definition parseInt :: "string \<Rightarrow> int \<Rightarrow> jsnum" where
  "parseInt inputString radix =
     (let S = dropWhile isWhiteSpace inputString;
          sign = (if take 1 S = ''-'' then - 1 else 1 :: int);
          S1 = (if take 1 S = ''-'' \<or> take 1 S = ''+'' then drop 1 S else S);
          stripPrefix = (radix = 0 \<or> radix = 16);
          hex = (stripPrefix \<and> (take 2 S1 = ''0x'' \<or> take 2 S1 = ''0X''));
          R = (if hex then 16 else if radix = 0 then 10 else radix);
          S2 = (if hex then drop 2 S1 else S1);
          Z = takeWhile (isDigitOf R) S2
      in if R < 2 \<or> 36 < R then NaN
         else if Z = [] then NaN
         else toNumber (sign * digitsValue R Z))"

text \<open>
  The decimal digits of a non-negative integer, as a template literal or \<open>String\<close>
  renders it.
\<close>

function decimal :: "int \<Rightarrow> string" where
  "decimal n = (if n < 10 then [char_of (48 + n)] else decimal (n div 10) @ [char_of (48 + n mod 10)])"
  by pat_completeness auto
termination
  by (relation "measure nat") auto

declare decimal.simps [simp del]

text \<open>
  \<open>String(x)\<close> for a number writes the shortest digits that read back as the same
  double: the fewest significant digits \<open>k\<close> for which some integer of \<open>k\<close> digits, followed
  by zeros, rounds to the double, and among those the nearest (the even one on a tie).
  With \<open>k\<close> digits the two neighbours of the value on the grid of step \<open>10^(len - k)\<close> are
  the only candidates; with all \<open>len\<close> digits the value itself is one.
\<close>

definition shortest_candidate :: "int \<Rightarrow> nat \<Rightarrow> int option" where
  "shortest_candidate v k =
     (let p = 10 ^ (length (decimal v) - k);
          c1 = (v div p) * p;
          c2 = c1 + p
      in if round53 c1 = v \<and> round53 c2 = v
           then Some (if v - c1 < c2 - v then c1
                      else if c2 - v < v - c1 then c2
                      else if even (c1 div p) then c1 else c2)
         else if round53 c1 = v then Some c1
         else if round53 c2 = v then Some c2
         else None)"

function shortest_from :: "int \<Rightarrow> nat \<Rightarrow> int" where
  "shortest_from v k =
     (if length (decimal v) \<le> k then v
      else case shortest_candidate v k of
        Some x \<Rightarrow> x
      | None \<Rightarrow> shortest_from v (Suc k))"
  by pat_completeness auto
termination
  by (relation "measure (\<lambda>(v, k). length (decimal v) - k)") auto

declare shortest_from.simps [simp del]

definition shortest :: "int \<Rightarrow> int" where
  "shortest v = shortest_from v 1"

text \<open>
  Up to 21 digits the shortest digits are written out with their zeros; beyond, in
  exponent notation: the first digit, the others after a point if there are any, and
  the exponent.
\<close>

definition strip_zeros :: "string \<Rightarrow> string" where
  "strip_zeros ds = rev (dropWhile (\<lambda>c. c = CHR ''0'') (rev ds))"

definition exponent_notation :: "int \<Rightarrow> string" where
  "exponent_notation x =
     (let ds = decimal x; s = strip_zeros ds
      in take 1 s @ (if 1 < length s then ''.'' @ drop 1 s else []) @ ''e+''
           @ decimal (int (length ds) - 1))"

definition numberToString :: "jsnum \<Rightarrow> string" where
  "numberToString x =
     (case x of
        NaN \<Rightarrow> ''NaN''
      | PosInfinity \<Rightarrow> ''Infinity''
      | NegInfinity \<Rightarrow> ''-Infinity''
      | Num n \<Rightarrow>
          (if n < 0 then ''-'' else []) @
          (if shortest \<bar>n\<bar> < 10 ^ 21 then decimal (shortest \<bar>n\<bar>)
           else exponent_notation (shortest \<bar>n\<bar>)))"

section \<open>models/User\<close>

text \<open>
  Modelled from the spec: the schema of the tables is not among the sources. The data
  model of the specification gives users a unique username and a unique email, and the
  registration handler expects \<open>ER_DUP_ENTRY\<close> with the violated key named in
  \<open>sqlMessage\<close>. The username key is checked first. String comparison is exact
  (no collation).
\<close>

definition dup_entry :: "string \<Rightarrow> string \<Rightarrow> js_error" where
  "dup_entry v k =
     MysqlError ''ER_DUP_ENTRY'' (''Duplicate entry '' @ v @ '' for key '' @ k)"

text \<open>
  \<open>bcrypt.hash\<close> is salted; the stored hash is modelled as the password under a tag,
  which is all that \<open>bcrypt.compare\<close> can observe.
\<close>

definition bcrypt_hash :: "string \<Rightarrow> string" where
  "bcrypt_hash password = ''$2a$'' @ password"

definition User_create ::
  "bool \<Rightarrow> int \<Rightarrow> database \<Rightarrow> string \<Rightarrow> string \<Rightarrow> string \<Rightarrow> (js_error + nat) \<times> database" where
  "User_create fails now d username email password =
     (if fails then (Inl connection_lost, d)
      else if username \<in> set (map u_username (users d))
        then (Inl (dup_entry username ''users.username''), d)
      else if email \<in> set (map u_email (users d))
        then (Inl (dup_entry email ''users.email''), d)
      else let i = insertId (map u_id (users d)) in
        (Inr i,
         d\<lparr>users := users d @
           [\<lparr>u_id = i, u_username = username, u_email = email,
             u_password_hash = bcrypt_hash password, u_avatar_url = None,
             u_is_online = False, u_last_seen = now\<rparr>]\<rparr>))"

definition User_findByEmail :: "bool \<Rightarrow> database \<Rightarrow> string \<Rightarrow> js_error + user_row option" where
  "User_findByEmail fails d email =
     (if fails then Inl connection_lost
      else Inr (find (\<lambda>u. u_email u = email) (users d)))"

definition User_findByUsername :: "bool \<Rightarrow> database \<Rightarrow> string \<Rightarrow> js_error + user_row option" where
  "User_findByUsername fails d username =
     (if fails then Inl connection_lost
      else Inr (find (\<lambda>u. u_username u = username) (users d)))"

definition User_setOnlineStatus ::
  "bool \<Rightarrow> int \<Rightarrow> database \<Rightarrow> nat \<Rightarrow> bool \<Rightarrow> (js_error + unit) \<times> database" where
  "User_setOnlineStatus fails now d userId isOnline =
     (if fails then (Inl connection_lost, d)
      else (Inr (),
        d\<lparr>users := map (\<lambda>u. if u_id u = userId
                 then u\<lparr>u_is_online := isOnline, u_last_seen := now\<rparr> else u) (users d)\<rparr>))"

section \<open>models/Session\<close>

text \<open>
  Every method of \<open>Session\<close> catches what the driver throws and throws a plain
  \<open>Error\<close> whose message starts with the method's own text.
\<close>

definition rethrown :: "string \<Rightarrow> js_error \<Rightarrow> js_error" where
  "rethrown what e = Error (what @ error_message e)"

definition Session_findBySessionId ::
  "bool \<Rightarrow> database \<Rightarrow> string \<Rightarrow> js_error + session_row option" where
  "Session_findBySessionId fails d sessionId =
     (if sessionId = [] then Inr None
      else if fails then Inl (rethrown ''Failed to find session: '' connection_lost)
      else Inr (find (\<lambda>s. s_session_id s = sessionId) (active_sessions d)))"

text \<open>
  \<open>Session.update\<close> as \<open>Session.create\<close> calls it: all four fields are passed (a missing
  one has become \<open>null\<close> through the default parameters), so all four columns and
  \<open>last_activity\<close> are written; \<open>user_id\<close> is not.
\<close>

definition Session_update ::
  "bool \<Rightarrow> int \<Rightarrow> database \<Rightarrow> string \<Rightarrow> string option \<Rightarrow> string option \<Rightarrow> string option
     \<Rightarrow> string option \<Rightarrow> (js_error + unit) \<times> database" where
  "Session_update fails now d sessionId socketId roomName ipAddress userAgent =
     (if fails then (Inl (rethrown ''Failed to update session: '' connection_lost), d)
      else (Inr (),
        d\<lparr>active_sessions := map (\<lambda>s. if s_session_id s = sessionId
             then s\<lparr>s_socket_id := socketId, s_room_name := roomName,
                    s_ip_address := ipAddress, s_user_agent := userAgent,
                    s_last_activity := now\<rparr>
             else s) (active_sessions d)\<rparr>))"

definition Session_create ::
  "bool \<Rightarrow> bool \<Rightarrow> int \<Rightarrow> database \<Rightarrow> string \<Rightarrow> nat \<Rightarrow> string option \<Rightarrow> string option
     \<Rightarrow> string option \<Rightarrow> string option \<Rightarrow> (js_error + unit) \<times> database" where
  "Session_create failFind failWrite now d sessionId userId socketId roomName ipAddress userAgent =
     (case Session_findBySessionId failFind d sessionId of
        Inl e \<Rightarrow> (Inl (rethrown ''Failed to create session: '' e), d)
      | Inr (Some existing) \<Rightarrow>
          (case Session_update failWrite now d sessionId socketId roomName ipAddress userAgent of
             (Inl e, d') \<Rightarrow> (Inl (rethrown ''Failed to create session: '' e), d')
           | (Inr u, d') \<Rightarrow> (Inr u, d'))
      | Inr None \<Rightarrow>
          (if failWrite
           then (Inl (rethrown ''Failed to create session: '' connection_lost), d)
           else (Inr (),
             d\<lparr>active_sessions := active_sessions d @
               [\<lparr>s_session_id = sessionId, s_user_id = userId, s_socket_id = socketId,
                 s_room_name = roomName, s_ip_address = ipAddress,
                 s_user_agent = userAgent, s_created_at = now,
                 s_last_activity = now\<rparr>]\<rparr>)))"

definition Session_remove :: "bool \<Rightarrow> database \<Rightarrow> string \<Rightarrow> (js_error + bool) \<times> database" where
  "Session_remove fails d sessionId =
     (if sessionId = [] then (Inr False, d)
      else if fails then (Inl (rethrown ''Failed to remove session: '' connection_lost), d)
      else (Inr (\<exists>s \<in> set (active_sessions d). s_session_id s = sessionId),
        d\<lparr>active_sessions := filter (\<lambda>s. s_session_id s \<noteq> sessionId) (active_sessions d)\<rparr>))"

text \<open>
  \<open>Session.getUsersInRoom\<close>: the join of users and active sessions on the user id,
  restricted to the room and to sessions whose last activity is less than one hour
  (3600 seconds) old, \<open>DISTINCT\<close>, ordered by username. Each row carries the six selected
  columns. Usernames are compared code unit by code unit (no collation); rows with equal
  usernames keep the order of the join (SQL leaves it open).
\<close>

record roster_row =
  rr_id :: nat
  rr_username :: string
  rr_is_online :: bool
  rr_avatar_url :: "string option"
  rr_last_activity :: int
  rr_socket_id :: "string option"

definition users_join_sessions :: "database \<Rightarrow> (user_row \<times> session_row) list" where
  "users_join_sessions d =
     concat (map (\<lambda>u. map (\<lambda>s. (u, s))
       (filter (\<lambda>s. u_id u = s_user_id s) (active_sessions d))) (users d))"

definition select_roster :: "user_row \<times> session_row \<Rightarrow> roster_row" where
  "select_roster us =
     \<lparr>rr_id = u_id (fst us), rr_username = u_username (fst us),
      rr_is_online = u_is_online (fst us), rr_avatar_url = u_avatar_url (fst us),
      rr_last_activity = s_last_activity (snd us), rr_socket_id = s_socket_id (snd us)\<rparr>"

definition Session_getUsersInRoom ::
  "bool \<Rightarrow> int \<Rightarrow> database \<Rightarrow> string \<Rightarrow> js_error + roster_row list" where
  "Session_getUsersInRoom fails now d roomName =
     (if roomName = [] then Inr []
      else if fails then Inl (rethrown ''Failed to get users in room: '' connection_lost)
      else Inr (sort_key rr_username (remdups (map select_roster
        (filter (\<lambda>us. s_room_name (snd us) = Some roomName \<and> now - 3600 < s_last_activity (snd us))
          (users_join_sessions d))))))"

section \<open>utils/messages\<close>

text \<open>
  A message as a client receives it. The \<open>time\<close> field is the clock reading or the stored
  timestamp itself; its rendering by \<open>toLocaleTimeString\<close> is not modelled. A live
  message has no \<open>messageType\<close> and no \<open>avatar\<close>.
\<close>

record chat_message =
  cm_username :: string
  cm_text :: string
  cm_time :: int
  cm_messageType :: "string option"
  cm_avatar :: "string option"

definition formatMessage :: "int \<Rightarrow> string \<Rightarrow> string \<Rightarrow> chat_message" where
  "formatMessage now username text =
     \<lparr>cm_username = username, cm_text = text, cm_time = now,
      cm_messageType = None, cm_avatar = None\<rparr>"

text \<open>A row of the history query: the message's columns, the author's name and avatar.\<close>

record history_row =
  hr_message :: message_row
  hr_username :: string
  hr_avatar_url :: "string option"

definition formatDbMessage :: "history_row \<Rightarrow> chat_message" where
  "formatDbMessage dbMessage =
     \<lparr>cm_username = (if hr_username dbMessage = [] then ''Unknown User'' else hr_username dbMessage),
      cm_text = m_message (hr_message dbMessage),
      cm_time = m_timestamp (hr_message dbMessage),
      cm_messageType = Some (if m_message_type (hr_message dbMessage) = [] then ''text''
                             else m_message_type (hr_message dbMessage)),
      cm_avatar = hr_avatar_url dbMessage\<rparr>"

section \<open>models/Message\<close>

definition Message_ensureRoom ::
  "bool \<Rightarrow> bool \<Rightarrow> database \<Rightarrow> string \<Rightarrow> (js_error + nat) \<times> database" where
  "Message_ensureRoom failSelect failInsert d roomName =
     (if failSelect then (Inl connection_lost, d)
      else case find (\<lambda>r. r_name r = roomName) (rooms d) of
        Some r \<Rightarrow> (Inr (r_id r), d)
      | None \<Rightarrow>
          (if failInsert then (Inl connection_lost, d)
           else let i = insertId (map r_id (rooms d)) in
             (Inr i, d\<lparr>rooms := rooms d @ [\<lparr>r_id = i, r_name = roomName, r_created_by = 1\<rparr>]\<rparr>)))"

definition Message_create ::
  "bool \<Rightarrow> bool \<Rightarrow> bool \<Rightarrow> int \<Rightarrow> database \<Rightarrow> nat \<Rightarrow> string \<Rightarrow> string \<Rightarrow> string
     \<Rightarrow> (js_error + nat) \<times> database" where
  "Message_create failSelect failRoom failInsert now d userId roomName message messageType =
     (case Message_ensureRoom failSelect failRoom d roomName of
        (Inl e, d1) \<Rightarrow> (Inl e, d1)
      | (Inr roomId, d1) \<Rightarrow>
          (if failInsert then (Inl connection_lost, d1)
           else let i = insertId (map m_id (messages d1)) in
             (Inr i,
              d1\<lparr>messages := messages d1 @
                [\<lparr>m_id = i, m_user_id = userId, m_room_id = roomId, m_message = message,
                  m_message_type = messageType, m_timestamp = now, m_is_deleted = False\<rparr>]\<rparr>)))"

text \<open>
  The history query: messages joined to their author and their room, of the named room
  and not deleted, newest first, cut at the limit. Rows with equal timestamps keep the
  order of the join (SQL leaves it open).
\<close>

definition messages_join :: "database \<Rightarrow> string \<Rightarrow> history_row list" where
  "messages_join d roomName =
     [\<lparr>hr_message = m, hr_username = u_username u, hr_avatar_url = u_avatar_url u\<rparr>.
        m \<leftarrow> messages d, u \<leftarrow> users d, r \<leftarrow> rooms d,
        m_user_id m = u_id u, m_room_id m = r_id r, r_name r = roomName, \<not> m_is_deleted m]"

definition order_by_timestamp_desc :: "history_row list \<Rightarrow> history_row list" where
  "order_by_timestamp_desc rows = sort_key (\<lambda>row. - m_timestamp (hr_message row)) rows"

text \<open>
  The limit is written into the statement's text; a text that is not a non-negative
  integer there makes the statement fail to parse.
\<close>

definition history_query :: "bool \<Rightarrow> database \<Rightarrow> string \<Rightarrow> jsnum \<Rightarrow> js_error + history_row list" where
  "history_query fails d roomName lim =
     (if fails then Inl connection_lost
      else case lim of
        Num n \<Rightarrow> (if 0 \<le> n then Inr (take (nat n) (order_by_timestamp_desc (messages_join d roomName)))
                  else Inl (MysqlError ''ER_PARSE_ERROR'' ''You have an error in your SQL syntax''))
      | _ \<Rightarrow> Inl (MysqlError ''ER_PARSE_ERROR'' ''You have an error in your SQL syntax''))"

definition messageLimit :: "jsnum \<Rightarrow> jsnum" where
  "messageLimit limit =
     Math_max (Num 1) (Math_min (or_default (parseInt (numberToString limit) 10) (Num 50)) (Num 1000))"

definition getRecentMessages ::
  "bool \<Rightarrow> bool \<Rightarrow> bool \<Rightarrow> database \<Rightarrow> string \<Rightarrow> jsnum \<Rightarrow> history_row list \<times> database" where
  "getRecentMessages failSelect failRoom failQuery d roomName limit =
     (case Message_ensureRoom failSelect failRoom d roomName of
        (Inl e, d1) \<Rightarrow> ([], d1)
      | (Inr roomId, d1) \<Rightarrow>
          (case history_query failQuery d1 roomName (messageLimit limit) of
             Inl e \<Rightarrow> ([], d1)
           | Inr rows \<Rightarrow> (rev rows, d1)))"

section \<open>utils/users: the in-memory presence registry\<close>

text \<open>
  \<open>connectedUsers\<close> is a JavaScript \<open>Map\<close>: it iterates in insertion order, \<open>set\<close> on a
  key that is present replaces the value where it stands, \<open>delete\<close> removes the entry.
  It is modelled as the list of its entries in iteration order.
\<close>

record presence =
  p_id :: nat
  p_socketId :: string
  p_sessionId :: string
  p_username :: string
  p_room :: string
  p_joinedAt :: int

fun Map_set :: "'k \<Rightarrow> 'v \<Rightarrow> ('k \<times> 'v) list \<Rightarrow> ('k \<times> 'v) list" where
  "Map_set k v [] = [(k, v)]"
| "Map_set k v (e # es) = (if fst e = k then (k, v) # es else e # Map_set k v es)"

fun Map_get :: "('k \<times> 'v) list \<Rightarrow> 'k \<Rightarrow> 'v option" where
  "Map_get [] k = None"
| "Map_get (e # es) k = (if fst e = k then Some (snd e) else Map_get es k)"

fun Map_delete :: "'k \<Rightarrow> ('k \<times> 'v) list \<Rightarrow> ('k \<times> 'v) list" where
  "Map_delete k [] = []"
| "Map_delete k (e # es) = (if fst e = k then es else e # Map_delete k es)"

definition Map_values :: "('k \<times> 'v) list \<Rightarrow> 'v list" where
  "Map_values es = map snd es"

record server =
  connectedUsers :: "(string \<times> presence) list"
  db :: database

text \<open>
  The statements a handler run sends, one name per place in the code; a fault plan says
  which of them fail in that run.
\<close>

datatype site =
    FindByEmail | FindByUsername | FindSuffixed nat | CreateUser | RefetchUser
  | SetOnline | SessionFind | SessionWrite | SessionDelete
  | HistoryRoomSelect | HistoryRoomInsert | HistoryQuery
  | MessageRoomSelect | MessageRoomInsert | MessageInsert
  | RosterQuery

type_synonym faults = "site \<Rightarrow> bool"

definition userJoin ::
  "faults \<Rightarrow> int \<Rightarrow> server \<Rightarrow> string \<Rightarrow> string \<Rightarrow> nat \<Rightarrow> string \<Rightarrow> string
     \<Rightarrow> string option \<Rightarrow> string option \<Rightarrow> presence \<times> server" where
  "userJoin flt now st socketId sessionId userId username room ipAddress userAgent =
     (let user = \<lparr>p_id = userId, p_socketId = socketId, p_sessionId = sessionId,
                  p_username = username, p_room = room, p_joinedAt = now\<rparr>;
          st1 = st\<lparr>connectedUsers := Map_set socketId user (connectedUsers st)\<rparr>;
          d2 = (case User_setOnlineStatus (flt SetOnline) now (db st1) userId True of
                  (Inl e, d1) \<Rightarrow> d1
                | (Inr u, d1) \<Rightarrow>
                    snd (Session_create (flt SessionFind) (flt SessionWrite) now d1 sessionId
                      userId (Some socketId) (Some room) ipAddress userAgent))
      in (user, st1\<lparr>db := d2\<rparr>))"

definition getCurrentUser :: "server \<Rightarrow> string \<Rightarrow> presence option" where
  "getCurrentUser st socketId = Map_get (connectedUsers st) socketId"

definition userLeave :: "faults \<Rightarrow> int \<Rightarrow> server \<Rightarrow> string \<Rightarrow> presence option \<times> server" where
  "userLeave flt now st socketId =
     (case Map_get (connectedUsers st) socketId of
        None \<Rightarrow> (None, st)
      | Some user \<Rightarrow>
          (let st1 = st\<lparr>connectedUsers := Map_delete socketId (connectedUsers st)\<rparr>;
               d2 = (case User_setOnlineStatus (flt SetOnline) now (db st1) (p_id user) False of
                       (Inl e, d1) \<Rightarrow> d1
                     | (Inr u, d1) \<Rightarrow> snd (Session_remove (flt SessionDelete) d1 (p_sessionId user)))
           in (Some user, st1\<lparr>db := d2\<rparr>)))"

text \<open>
  A roster entry as \<open>getRoomUsers\<close> builds it. From a database row the id is read from
  \<open>userId\<close> or \<open>user_id\<close> and the online flag from \<open>isOnline\<close>; the rows have the
  columns \<open>id\<close> and \<open>is_online\<close> instead, so the id is \<open>undefined\<close> (\<open>None\<close>) and
  the flag takes its default \<open>true\<close>. An entry from the registry has no avatar.
\<close>

record roster_entry =
  re_id :: "nat option"
  re_username :: string
  re_isOnline :: bool
  re_avatar :: "string option"

definition roster_of_row :: "roster_row \<Rightarrow> roster_entry" where
  "roster_of_row r =
     \<lparr>re_id = None, re_username = rr_username r, re_isOnline = True,
      re_avatar = rr_avatar_url r\<rparr>"

definition roster_of_presence :: "presence \<Rightarrow> roster_entry" where
  "roster_of_presence user =
     \<lparr>re_id = Some (p_id user), re_username = p_username user, re_isOnline = True,
      re_avatar = None\<rparr>"

definition memory_roster :: "server \<Rightarrow> string \<Rightarrow> roster_entry list" where
  "memory_roster st room =
     map roster_of_presence (filter (\<lambda>user. p_room user = room) (Map_values (connectedUsers st)))"

definition getRoomUsers :: "faults \<Rightarrow> int \<Rightarrow> server \<Rightarrow> string \<Rightarrow> roster_entry list" where
  "getRoomUsers flt now st room =
     (case Session_getUsersInRoom (flt RosterQuery) now (db st) room of
        Inr rows \<Rightarrow> (if rows \<noteq> [] then map roster_of_row rows else memory_roster st room)
      | Inl e \<Rightarrow> memory_roster st room)"

text \<open>
  Calls of \<open>userJoin\<close> and \<open>userLeave\<close> in the order the event loop runs them, each with
  the fault plan and the clock of its own run.
\<close>

datatype registry_call =
    CallJoin string string nat string string "string option" "string option"
  | CallLeave string

fun run_call :: "faults \<times> int \<times> registry_call \<Rightarrow> server \<Rightarrow> server" where
  "run_call (flt, now, CallJoin socketId sessionId userId username room ip ua) st =
     snd (userJoin flt now st socketId sessionId userId username room ip ua)"
| "run_call (flt, now, CallLeave socketId) st = snd (userLeave flt now st socketId)"

fun run_calls :: "(faults \<times> int \<times> registry_call) list \<Rightarrow> server \<Rightarrow> server" where
  "run_calls [] st = st"
| "run_calls (c # cs) st = run_calls cs (run_call c st)"

definition records_of :: "string \<Rightarrow> server \<Rightarrow> presence list" where
  "records_of socketId st = map snd (filter (\<lambda>e. fst e = socketId) (connectedUsers st))"

definition startup :: "database \<Rightarrow> server" where
  "startup d = \<lparr>connectedUsers = [], db = d\<rparr>"

section \<open>app: the socket handlers\<close>

text \<open>
  What a handler run does to the sockets, in order: an emit to the handler's own socket
  (\<open>socket.emit\<close>), to every socket of a room but the handler's own
  (\<open>socket.broadcast.to(room)\<close>), to every socket of a room (\<open>io.to(room)\<close>), and the
  handler's socket entering a room (\<open>socket.join\<close>).
\<close>

datatype target = ToSocket string | ToRoomExceptSender string string | ToRoom string

datatype event =
    RoomJoined string nat string
  | RoomJoinError string
  | LoadMessages "chat_message list"
  | ChatMessage chat_message
  | MessageError string
  | RoomUsers string "roster_entry list"

datatype effect = Emit target event | SocketJoin string string

definition botName :: string where
  "botName = ''ChatBud Bot''"

text \<open>
  The two emoji of the bot's notices lie outside the code units below 256; they stand
  here as their UTF-8 bytes.
\<close>

definition party_popper :: string where
  "party_popper = [CHR 0xF0, CHR 0x9F, CHR 0x8E, CHR 0x89]"

definition waving_hand :: string where
  "waving_hand = [CHR 0xF0, CHR 0x9F, CHR 0x91, CHR 0x8B]"

text \<open>The payload of an event is whatever the client sent.\<close>

datatype js_value = JUndefined | JNull | JBool bool | JNumber jsnum | JString string | JObject

fun truthy :: "js_value \<Rightarrow> bool" where
  "truthy JUndefined = False"
| "truthy JNull = False"
| "truthy (JBool b) = b"
| "truthy (JNumber x) = (x \<noteq> NaN \<and> x \<noteq> Num 0)"
| "truthy (JString s) = (s \<noteq> [])"
| "truthy JObject = True"

fun typeof :: "js_value \<Rightarrow> string" where
  "typeof JUndefined = ''undefined''"
| "typeof JNull = ''object''"
| "typeof (JBool b) = ''boolean''"
| "typeof (JNumber x) = ''number''"
| "typeof (JString s) = ''string''"
| "typeof JObject = ''object''"

text \<open>
  \<open>chatMessage\<close>. The message is saved without waiting (\<open>Message.create(...).catch\<close>):
  a failure is logged and the tables keep what \<open>ensureRoom\<close> has done.
\<close>

definition chatMessage :: "faults \<Rightarrow> int \<Rightarrow> server \<Rightarrow> string \<Rightarrow> js_value \<Rightarrow> server \<times> effect list" where
  "chatMessage flt now st socketId msg =
     (case getCurrentUser st socketId of
        None \<Rightarrow> (st, [Emit (ToSocket socketId) (MessageError ''User session not found'')])
      | Some user \<Rightarrow>
          (if \<not> truthy msg \<or> typeof msg \<noteq> ''string''
           then (st, [Emit (ToSocket socketId) (MessageError ''Invalid message'')])
           else case msg of
             JString text \<Rightarrow>
               (let trimmedMsg = trim text in
                if trimmedMsg = []
                then (st, [Emit (ToSocket socketId) (MessageError ''Empty message'')])
                else
                  (st\<lparr>db := snd (Message_create (flt MessageRoomSelect) (flt MessageRoomInsert)
                      (flt MessageInsert) now (db st) (p_id user) (p_room user) trimmedMsg ''text'')\<rparr>,
                   [Emit (ToRoom (p_room user))
                      (ChatMessage (formatMessage now (p_username user) trimmedMsg))]))
           | _ \<Rightarrow> (st, [Emit (ToSocket socketId) (MessageError ''Invalid message'')])))"

text \<open>
  The connection a handler belongs to: the socket id and, from the handshake, the
  session id (absent unless a middleware has set it), the address and the user agent.
\<close>

record socket =
  socket_id :: string
  handshake_sessionID :: "string option"
  handshake_address :: "string option"
  handshake_user_agent :: "string option"

text \<open>
  The placeholder email of a guest: the lower-cased username without every character
  that is not a lower-case letter or a digit, at \<open>guest.temp\<close>.
\<close>

definition toLowerCase :: "string \<Rightarrow> string" where
  "toLowerCase s =
     map (\<lambda>c. if 65 \<le> (of_char c :: int) \<and> (of_char c :: int) \<le> 90 then char_of (of_char c + 32 :: int) else c) s"

definition guest_email :: "string \<Rightarrow> string" where
  "guest_email username =
     filter (\<lambda>c. (97 \<le> (of_char c :: int) \<and> (of_char c :: int) \<le> 122)
                \<or> (48 \<le> (of_char c :: int) \<and> (of_char c :: int) \<le> 57))
       (toLowerCase username) @ ''@guest.temp''"

text \<open>
  The first part of \<open>joinRoom\<close>: get or create the user. The handler is suspended
  between its lookup and its insert; \<open>interleaved\<close> is what other handlers do to the
  tables meanwhile (the identity when none runs). The result is the \<open>id\<close> of the
  \<open>user\<close> variable, the one field read later (\<open>None\<close> when \<open>user\<close> is \<open>undefined\<close>),
  or how the handler stops: it has answered the failed insert itself, or an error is on
  its way to the outer \<open>catch\<close>.
\<close>

datatype stop = Answered | Thrown js_error

definition get_or_create_user ::
  "faults \<Rightarrow> (database \<Rightarrow> database) \<Rightarrow> int \<Rightarrow> database \<Rightarrow> string
     \<Rightarrow> (stop + nat option) \<times> database" where
  "get_or_create_user flt interleaved now d username =
     (case User_findByUsername (flt FindByUsername) d username of
        Inl e \<Rightarrow> (Inl (Thrown e), d)
      | Inr (Some user) \<Rightarrow> (Inr (Some (u_id user)), d)
      | Inr None \<Rightarrow>
          (case User_create (flt CreateUser) now (interleaved d) username (guest_email username)
                  ''temporary123'' of
             (Inr userId, d1) \<Rightarrow> (Inr (Some userId), d1)
           | (Inl createError, d1) \<Rightarrow>
               (if error_code createError = Some ''ER_DUP_ENTRY''
                then (case User_findByUsername (flt RefetchUser) d1 username of
                        Inl e \<Rightarrow> (Inl (Thrown e), d1)
                      | Inr user \<Rightarrow> (Inr (map_option u_id user), d1))
                else (Inl Answered, d1))))"

text \<open>
  The rest of \<open>joinRoom\<close>, once the user is known: register the presence, enter the
  room, confirm, load the history, greet, tell the others, record the join, send the
  roster. A failure of the history load or of the system message is logged only.
\<close>

definition complete_join ::
  "faults \<Rightarrow> int \<Rightarrow> server \<Rightarrow> socket \<Rightarrow> nat \<Rightarrow> string \<Rightarrow> string \<Rightarrow> server \<times> effect list" where
  "complete_join flt now st sock userId username room =
     (let sessionId = (case handshake_sessionID sock of
                         None \<Rightarrow> socket_id sock
                       | Some s \<Rightarrow> if s = [] then socket_id sock else s);
          st2 = snd (userJoin flt now st (socket_id sock) sessionId userId username room
                   (handshake_address sock) (handshake_user_agent sock));
          recent = getRecentMessages (flt HistoryRoomSelect) (flt HistoryRoomInsert)
                     (flt HistoryQuery) (db st2) room (Num 20);
          d4 = snd (Message_create (flt MessageRoomSelect) (flt MessageRoomInsert)
                     (flt MessageInsert) now (snd recent) userId room
                     (username @ '' has joined the chat!'') ''system'');
          st4 = st2\<lparr>db := d4\<rparr>
      in (st4,
          [SocketJoin (socket_id sock) room,
           Emit (ToSocket (socket_id sock)) (RoomJoined room userId username),
           Emit (ToSocket (socket_id sock)) (LoadMessages (map formatDbMessage (fst recent))),
           Emit (ToSocket (socket_id sock))
             (ChatMessage (formatMessage now botName
                (''Welcome to ChatBud, '' @ username @ ''! '' @ party_popper))),
           Emit (ToRoomExceptSender room (socket_id sock))
             (ChatMessage (formatMessage now botName
                (username @ '' has joined the chat! '' @ waving_hand))),
           Emit (ToRoom room) (RoomUsers room (getRoomUsers flt now st4 room))]))"

text \<open>
  \<open>joinRoom\<close>. The payload's \<open>username\<close> and \<open>room\<close> are strings or missing. An error
  thrown on the way (by the lookup, by the second lookup, or by reading \<open>user.id\<close> when
  the second lookup found nothing) reaches the outer \<open>catch\<close>.
\<close>

definition joinRoom ::
  "faults \<Rightarrow> (database \<Rightarrow> database) \<Rightarrow> int \<Rightarrow> server \<Rightarrow> socket \<Rightarrow> string option \<Rightarrow> string option
     \<Rightarrow> server \<times> effect list" where
  "joinRoom flt interleaved now st sock username_opt room_opt =
     (case (username_opt, room_opt) of
        (Some username, Some room) \<Rightarrow>
          (if username = [] \<or> room = []
           then (st, [Emit (ToSocket (socket_id sock)) (RoomJoinError ''Username and room are required'')])
           else case get_or_create_user flt interleaved now (db st) username of
             (Inl Answered, d1) \<Rightarrow>
               (st\<lparr>db := d1\<rparr>,
                [Emit (ToSocket (socket_id sock)) (RoomJoinError ''Error creating user account'')])
           | (Inl (Thrown e), d1) \<Rightarrow>
               (st\<lparr>db := d1\<rparr>,
                [Emit (ToSocket (socket_id sock))
                   (RoomJoinError ''Failed to join room. Please try again.'')])
           | (Inr None, d1) \<Rightarrow>
               \<comment> \<open>reading \<open>user.id\<close> of \<open>undefined\<close> throws a \<open>TypeError\<close>\<close>
               (st\<lparr>db := d1\<rparr>,
                [Emit (ToSocket (socket_id sock))
                   (RoomJoinError ''Failed to join room. Please try again.'')])
           | (Inr (Some userId), d1) \<Rightarrow>
               complete_join flt now (st\<lparr>db := d1\<rparr>) sock userId username room)
      | _ \<Rightarrow> (st, [Emit (ToSocket (socket_id sock)) (RoomJoinError ''Username and room are required'')]))"

definition disconnect :: "faults \<Rightarrow> int \<Rightarrow> server \<Rightarrow> string \<Rightarrow> server \<times> effect list" where
  "disconnect flt now st socketId =
     (case userLeave flt now st socketId of
        (None, st1) \<Rightarrow> (st1, [])
      | (Some user, st1) \<Rightarrow>
          (let st2 = st1\<lparr>db := snd (Message_create (flt MessageRoomSelect) (flt MessageRoomInsert)
                         (flt MessageInsert) now (db st1) (p_id user) (p_room user)
                         (p_username user @ '' has left the chat!'') ''system'')\<rparr>
           in (st2,
               [Emit (ToRoom (p_room user))
                  (ChatMessage (formatMessage now botName
                     (p_username user @ '' has left the chat! '' @ waving_hand))),
                Emit (ToRoom (p_room user))
                  (RoomUsers (p_room user) (getRoomUsers flt now st2 (p_room user)))])))"

section \<open>app: the HTTP handlers\<close>

text \<open>The session of a request, and the JSON answers of the two handlers modelled.\<close>

record http_session =
  session_userId :: "nat option"
  session_username :: "string option"

datatype response =
    Registered nat string string
  | Rejected nat string
  | MessageList "chat_message list"

text \<open>
  \<open>GET /api/messages/:room\<close>. The \<open>limit\<close> of the query string is a string or missing
  (\<open>undefined\<close>, which \<open>parseInt\<close> reads as the text \<open>undefined\<close>). A user id of zero is
  falsy like a missing one.
\<close>

definition requested_limit :: "string option \<Rightarrow> jsnum" where
  "requested_limit q = parseInt (case q of None \<Rightarrow> ''undefined'' | Some text \<Rightarrow> text) 0"

definition query_limit :: "string option \<Rightarrow> jsnum" where
  "query_limit q = or_default (requested_limit q) (Num 50)"

definition get_messages ::
  "faults \<Rightarrow> database \<Rightarrow> http_session \<Rightarrow> string \<Rightarrow> string option \<Rightarrow> response \<times> database" where
  "get_messages flt d sess room q =
     (if session_userId sess = None \<or> session_userId sess = Some 0
      then (Rejected 401 ''Not authenticated'', d)
      else let recent = getRecentMessages (flt HistoryRoomSelect) (flt HistoryRoomInsert)
                          (flt HistoryQuery) d room (query_limit q)
           in (MessageList (map formatDbMessage (fst recent)), snd recent))"

section \<open>The words of the specification\<close>

text \<open>
  A join is rejected when all the handler has done to the sockets is one
  \<open>roomJoinError\<close> on its own socket and the registry is as it was.
\<close>

definition rejected :: "socket \<Rightarrow> server \<Rightarrow> server \<times> effect list \<Rightarrow> bool" where
  "rejected sock st result =
     (connectedUsers (fst result) = connectedUsers st \<and>
      (case snd result of
         [Emit (ToSocket s) (RoomJoinError reason)] \<Rightarrow> s = socket_id sock
       | _ \<Rightarrow> False))"

text \<open>
  The specification clamps the requested limit to the range from 1 to 1000 and lets a
  non-numeric or missing limit default to 50: \<open>claimed_limit\<close>, on the number the handler
  reads from the query string. \<open>effective_limit\<close> differs where the handler's \<open>||\<close>
  takes over: a requested zero, like \<open>NaN\<close>, becomes 50, and so does an infinity (whose
  text does not parse).
\<close>

definition clamp_limit :: "int \<Rightarrow> int" where
  "clamp_limit n = max 1 (min n 1000)"

definition claimed_limit :: "jsnum \<Rightarrow> int" where
  "claimed_limit r =
     (case r of NaN \<Rightarrow> 50 | Num n \<Rightarrow> clamp_limit n | PosInfinity \<Rightarrow> 1000 | NegInfinity \<Rightarrow> 1)"

definition effective_limit :: "jsnum \<Rightarrow> int" where
  "effective_limit r =
     (case r of Num n \<Rightarrow> (if n = 0 then 50 else clamp_limit n) | _ \<Rightarrow> 50)"

section \<open>A small installation, for closed instances of the theorems\<close>

definition nothing_fails :: faults where
  "nothing_fails = (\<lambda>s. False)"

definition alice_row :: user_row where
  "alice_row = \<lparr>u_id = 1, u_username = ''alice'', u_email = ''alice@guest.temp'',
     u_password_hash = bcrypt_hash ''temporary123'', u_avatar_url = None,
     u_is_online = False, u_last_seen = 0\<rparr>"

definition bob_row :: user_row where
  "bob_row = \<lparr>u_id = 1, u_username = ''bob'', u_email = ''bob@guest.temp'',
     u_password_hash = bcrypt_hash ''temporary123'', u_avatar_url = None,
     u_is_online = False, u_last_seen = 0\<rparr>"

definition empty_db :: database where
  "empty_db = \<lparr>users = [], rooms = [], messages = [], active_sessions = []\<rparr>"

definition alice_db :: database where
  "alice_db = \<lparr>users = [alice_row], rooms = [], messages = [], active_sessions = []\<rparr>"

definition socket1 :: socket where
  "socket1 = \<lparr>socket_id = ''s1'', handshake_sessionID = None,
     handshake_address = Some ''10.0.0.7'', handshake_user_agent = None\<rparr>"

definition alice_present :: presence where
  "alice_present = \<lparr>p_id = 1, p_socketId = ''s1'', p_sessionId = ''s1'', p_username = ''alice'',
     p_room = ''general'', p_joinedAt = 100\<rparr>"

definition alice_joined :: server where
  "alice_joined = \<lparr>connectedUsers = [(''s1'', alice_present)], db = alice_db\<rparr>"

definition alice_session :: session_row where
  "alice_session = \<lparr>s_session_id = ''s1'', s_user_id = 1, s_socket_id = Some ''s1'',
     s_room_name = Some ''general'', s_ip_address = Some ''10.0.0.7'', s_user_agent = None,
     s_created_at = 100, s_last_activity = 100\<rparr>"

definition alice_in_session :: server where
  "alice_in_session =
     \<lparr>connectedUsers = [(''s1'', alice_present)],
      db = alice_db\<lparr>active_sessions := [alice_session]\<rparr>\<rparr>"

definition general_room :: room_row where
  "general_room = \<lparr>r_id = 1, r_name = ''general'', r_created_by = 1\<rparr>"

definition hello_message :: message_row where
  "hello_message = \<lparr>m_id = 1, m_user_id = 1, m_room_id = 1, m_message = ''hello'',
     m_message_type = ''text'', m_timestamp = 100, m_is_deleted = False\<rparr>"

definition again_message :: message_row where
  "again_message = \<lparr>m_id = 2, m_user_id = 1, m_room_id = 1, m_message = ''again'',
     m_message_type = ''text'', m_timestamp = 160, m_is_deleted = False\<rparr>"

definition chat_db :: database where
  "chat_db = \<lparr>users = [alice_row], rooms = [general_room],
     messages = [hello_message, again_message], active_sessions = []\<rparr>"

definition alice_logged_in :: http_session where
  "alice_logged_in = \<lparr>session_userId = Some 1, session_username = Some ''alice''\<rparr>"

definition session_write_fails :: faults where
  "session_write_fails = (\<lambda>s. s = SessionWrite)"

definition bob_created_meanwhile :: "database \<Rightarrow> database" where
  "bob_created_meanwhile d = d\<lparr>users := users d @ [bob_row]\<rparr>"

definition carol_rejoins :: "(faults \<times> int \<times> registry_call) list" where
  "carol_rejoins =
     [(nothing_fails, 100, CallJoin ''s1'' ''s1'' 1 ''alice'' ''general'' (Some ''10.0.0.7'') None),
      (nothing_fails, 200, CallJoin ''s2'' ''s2'' 2 ''bob'' ''general'' None None)]"



section \<open>app: registration\<close>

text \<open>\<open>String.prototype.includes\<close>, and the \<open>catch\<close> of the registration handler.\<close>

fun String_includes :: "string \<Rightarrow> string \<Rightarrow> bool" where
  "String_includes [] t = (t = [])"
| "String_includes (c # cs) t = (take (length t) (c # cs) = t \<or> String_includes cs t)"

definition register_catch :: "js_error \<Rightarrow> response" where
  "register_catch error =
     (if error_code error = Some ''ER_DUP_ENTRY'' \<and> String_includes (error_message error) ''username''
        then Rejected 409 ''Username already taken''
      else if error_code error = Some ''ER_DUP_ENTRY'' \<and> String_includes (error_message error) ''email''
        then Rejected 409 ''Email already registered''
      else Rejected 500 ''Server error during registration'')"

text \<open>
  The loop of the handler tries \<open>username1\<close>, \<open>username2\<close>, ... until a name is free. It
  ends because decimal numerals of different numbers differ, so every round leaves one
  row less that can still match.
\<close>

lemma of_char_digit: "0 \<le> n \<Longrightarrow> n < 10 \<Longrightarrow> (of_char (char_of (48 + n)) :: int) = 48 + n"
  by simp

lemma digitValue_digit: "0 \<le> n \<Longrightarrow> n < 10 \<Longrightarrow> digitValue (char_of (48 + n)) = Some n"
  by (simp add: digitValue_def of_char_digit Let_def)

lemma digitsValue_snoc:
  "digitsValue R (Z @ [c]) = digitsValue R Z * R + (case digitValue c of None \<Rightarrow> 0 | Some v \<Rightarrow> v)"
  by (simp add: digitsValue_def)

lemma digitsValue_decimal: "0 \<le> n \<Longrightarrow> digitsValue 10 (decimal n) = n"
proof (induction n rule: decimal.induct)
  case (1 n)
  show ?case
  proof (cases "n < 10")
    case True
    have "decimal n = [char_of (48 + n)]"
      using True by (subst decimal.simps) simp
    then show ?thesis
      using True "1.prems" by (simp add: digitsValue_def digitValue_digit)
  next
    case False
    have unfold: "decimal n = decimal (n div 10) @ [char_of (48 + n mod 10)]"
      using False by (subst decimal.simps) simp
    have "digitsValue 10 (decimal (n div 10)) = n div 10"
      using "1.IH" False "1.prems" by simp
    then show ?thesis
      unfolding unfold digitsValue_snoc by (simp add: digitValue_digit)
  qed
qed

lemma decimal_inject:
  assumes "0 \<le> a" and "0 \<le> b" and eq: "decimal a = decimal b"
  shows "a = b"
proof -
  have "digitsValue 10 (decimal a) = digitsValue 10 (decimal b)"
    by (rule arg_cong [OF eq])
  then show ?thesis
    by (simp only: digitsValue_decimal [OF assms(1)] digitsValue_decimal [OF assms(2)])
qed

function findFreeSuffix :: "faults \<Rightarrow> database \<Rightarrow> string \<Rightarrow> nat \<Rightarrow> js_error + string" where
  "findFreeSuffix flt d username counter =
     (case User_findByUsername (flt (FindSuffixed counter)) d (username @ decimal (int counter)) of
        Inl e \<Rightarrow> Inl e
      | Inr None \<Rightarrow> Inr (username @ decimal (int counter))
      | Inr (Some taken) \<Rightarrow> findFreeSuffix flt d username (Suc counter))"
  by pat_completeness auto
termination
proof (relation "measure (\<lambda>(flt, d, username, counter).
    length (filter (\<lambda>u. \<exists>k\<ge>counter. u_username u = username @ decimal (int k)) (users d)))")
  show "wf (measure (\<lambda>(flt, d, username, counter).
    length (filter (\<lambda>u. \<exists>k\<ge>counter. u_username u = username @ decimal (int k)) (users d))))"
    by simp
next
  fix flt :: faults and d :: database and username :: string and counter :: nat
    and found :: "user_row option" and taken :: user_row
  assume look: "User_findByUsername (flt (FindSuffixed counter)) d (username @ decimal (int counter)) = Inr found"
    and some: "found = Some taken"
  let ?P = "\<lambda>c u. \<exists>k\<ge>c. u_username u = username @ decimal (int k)"
  have mem: "taken \<in> set (users d)" and name: "u_username taken = username @ decimal (int counter)"
    using look some by (auto simp: User_findByUsername_def find_Some_iff split: if_splits)
  have inP: "taken \<in> set (filter (?P counter) (users d))"
    using mem name by auto
  have notP: "\<not> ?P (Suc counter) taken"
  proof
    assume "?P (Suc counter) taken"
    then obtain k where "Suc counter \<le> k" "decimal (int k) = decimal (int counter)"
      using name by auto
    then show False using decimal_inject [of "int k" "int counter"] by simp
  qed
  have weaker: "?P counter u" if "?P (Suc counter) u" for u :: user_row
    using that Suc_leD by blast
  have "filter (?P (Suc counter)) (filter (?P counter) (users d)) =
      filter (\<lambda>u. ?P counter u \<and> ?P (Suc counter) u) (users d)"
    by (simp only: filter_filter)
  also have "\<dots> = filter (?P (Suc counter)) (users d)"
    by (rule filter_cong [OF refl]) (use weaker in blast)
  finally have "filter (?P (Suc counter)) (users d) = filter (?P (Suc counter)) (filter (?P counter) (users d))"
    by (rule sym)
  then have "length (filter (?P (Suc counter)) (users d)) < length (filter (?P counter) (users d))"
    using length_filter_less [of taken "filter (?P counter) (users d)" "?P (Suc counter)", OF inP notP]
    by simp
  then show "((flt, d, username, Suc counter), (flt, d, username, counter))
      \<in> measure (\<lambda>(flt, d, username, counter).
          length (filter (\<lambda>u. \<exists>k\<ge>counter. u_username u = username @ decimal (int k)) (users d)))"
    by simp
qed

declare findFreeSuffix.simps [simp del]

text \<open>
  \<open>POST /auth/register\<close>. The body's \<open>email\<close> and \<open>password\<close> are strings or missing. The
  username is the email up to its first \<open>@\<close> and is declared \<open>const\<close>.
\<close>

definition register ::
  "faults \<Rightarrow> int \<Rightarrow> database \<Rightarrow> http_session \<Rightarrow> string option \<Rightarrow> string option
     \<Rightarrow> response \<times> http_session \<times> database" where
  "register flt now d sess email_opt password_opt =
     (case (email_opt, password_opt) of
        (Some email, Some password) \<Rightarrow>
          (if email = [] \<or> password = []
             then (Rejected 400 ''Email and password are required'', sess, d)
           else if length password < 6
             then (Rejected 400 ''Password must be at least 6 characters'', sess, d)
           else let username = takeWhile (\<lambda>c. c \<noteq> CHR ''@'') email in
             case User_findByEmail (flt FindByEmail) d email of
               Inl e \<Rightarrow> (register_catch e, sess, d)
             | Inr (Some existingUser) \<Rightarrow> (Rejected 409 ''Email already registered'', sess, d)
             | Inr None \<Rightarrow>
                 (case User_findByUsername (flt FindByUsername) d username of
                    Inl e \<Rightarrow> (register_catch e, sess, d)
                  | Inr (Some existingUsername) \<Rightarrow>
                      (case findFreeSuffix flt d username 1 of
                         Inl e \<Rightarrow> (register_catch e, sess, d)
                       | Inr newUsername \<Rightarrow>
                           \<comment> \<open>\<open>username = newUsername\<close> assigns to a \<open>const\<close>\<close>
                           (register_catch (TypeError ''Assignment to constant variable.''), sess, d))
                  | Inr None \<Rightarrow>
                      (case User_create (flt CreateUser) now d username email password of
                         (Inl e, d1) \<Rightarrow> (register_catch e, sess, d1)
                       | (Inr userId, d1) \<Rightarrow>
                           (Registered userId username email,
                            sess\<lparr>session_userId := Some userId, session_username := Some username\<rparr>,
                            d1))))
      | _ \<Rightarrow> (Rejected 400 ''Email and password are required'', sess, d))"

section \<open>The presence registry holds one record per connection\<close>

lemma keys_Map_set: "fst ` set (Map_set k v es) = insert k (fst ` set es)"
  by (induction es) auto

lemma distinct_Map_set: "distinct (map fst es) \<Longrightarrow> distinct (map fst (Map_set k v es))"
  by (induction es) (auto simp: keys_Map_set)

lemma keys_Map_delete: "fst ` set (Map_delete k es) \<subseteq> fst ` set es"
  by (induction es) auto

lemma distinct_Map_delete: "distinct (map fst es) \<Longrightarrow> distinct (map fst (Map_delete k es))"
proof (induction es)
  case Nil
  then show ?case by simp
next
  case (Cons e es)
  have "fst e \<notin> fst ` set (Map_delete k es)"
    using Cons.prems keys_Map_delete [of k es] by auto
  with Cons show ?case by simp
qed

lemma connectedUsers_userJoin:
  "connectedUsers (snd (userJoin flt now st sid sess uid name room ip ua)) =
     Map_set sid (fst (userJoin flt now st sid sess uid name room ip ua)) (connectedUsers st)"
  by (simp add: userJoin_def Let_def)

lemma connectedUsers_userLeave:
  "connectedUsers (snd (userLeave flt now st sid)) =
     (case Map_get (connectedUsers st) sid of None \<Rightarrow> connectedUsers st
      | Some u \<Rightarrow> Map_delete sid (connectedUsers st))"
  by (simp add: userLeave_def Let_def split: option.splits)

lemma distinct_run_call:
  "distinct (map fst (connectedUsers st)) \<Longrightarrow> distinct (map fst (connectedUsers (run_call c st)))"
proof (cases c)
  case (fields flt now call)
  then show "distinct (map fst (connectedUsers st)) \<Longrightarrow> ?thesis"
    by (cases call)
      (auto simp: connectedUsers_userJoin connectedUsers_userLeave distinct_Map_set
        distinct_Map_delete split: option.splits)
qed

lemma distinct_run_calls:
  "distinct (map fst (connectedUsers st)) \<Longrightarrow> distinct (map fst (connectedUsers (run_calls cs st)))"
  by (induction cs arbitrary: st) (auto simp: distinct_run_call)

lemma records_of_distinct:
  "distinct (map fst es) \<Longrightarrow> length (filter (\<lambda>e. fst e = k) es) \<le> 1"
  by (induction es) (auto simp: filter_empty_conv image_iff)

lemma filter_Map_set:
  "distinct (map fst es) \<Longrightarrow> filter (\<lambda>e. fst e = k) (Map_set k v es) = [(k, v)]"
  by (induction es) (auto simp: filter_empty_conv image_iff)

lemma length_Map_set:
  "length (Map_set k v es) = (if Map_get es k = None then Suc (length es) else length es)"
  by (induction es) auto

lemma Map_get_Map_set: "Map_get (Map_set k v es) k' = (if k' = k then Some v else Map_get es k')"
  by (induction es) auto

lemma filter_Map_set_other:
  "k' \<noteq> k \<Longrightarrow> filter (\<lambda>e. fst e = k') (Map_set k v es) = filter (\<lambda>e. fst e = k') es"
  by (induction es) auto

lemma key_deleted: "distinct (map fst es) \<Longrightarrow> k \<notin> fst ` set (Map_delete k es)"
proof (induction es)
  case Nil
  then show ?case by simp
next
  case (Cons e es)
  show ?case
  proof (cases "fst e = k")
    case True
    with Cons.prems show ?thesis by auto
  next
    case False
    with Cons show ?thesis by auto
  qed
qed

lemma filter_Map_delete_other:
  "k' \<noteq> k \<Longrightarrow> filter (\<lambda>e. fst e = k') (Map_delete k es) = filter (\<lambda>e. fst e = k') es"
  by (induction es) auto

lemma filter_Map_delete:
  "distinct (map fst es) \<Longrightarrow>
     filter (\<lambda>e. fst e = k') (Map_delete k es) = (if k' = k then [] else filter (\<lambda>e. fst e = k') es)"
  using key_deleted [of es k] by (auto simp: filter_Map_delete_other filter_empty_conv)

lemma Map_get_None_filter: "Map_get es k = None \<Longrightarrow> filter (\<lambda>e. fst e = k) es = []"
  by (induction es) (auto split: if_splits)

lemma fst_userJoin:
  "fst (userJoin flt now st socketId sessionId userId username room ip ua) =
     \<lparr>p_id = userId, p_socketId = socketId, p_sessionId = sessionId,
      p_username = username, p_room = room, p_joinedAt = now\<rparr>"
  by (simp add: userJoin_def Let_def)

text \<open>
  C9. Whatever calls of \<open>userJoin\<close> and \<open>userLeave\<close> have run since the process
  started, in whatever order and with whatever database failures, the registry holds at
  most one record for any connection id. A further \<open>userJoin\<close> for a connection id leaves
  exactly one record for it, and that record is the new one, built from the arguments
  of this call: the registry grows by one entry only when the id had no record, and
  keeps its size when the old record is replaced. The records of every other connection
  id stay as they were. A \<open>userLeave\<close> leaves no record for its connection id and the
  records of the others as they were.
\<close>

theorem presence_one_record_per_connection:
  "let st = run_calls calls (startup d);
       joined = userJoin flt now st socketId sessionId userId username room ip ua
   in distinct (map fst (connectedUsers st))
    \<and> length (records_of anyId st) \<le> 1
    \<and> records_of socketId (snd joined) = [fst joined]
    \<and> getCurrentUser (snd joined) socketId = Some (fst joined)
    \<and> length (connectedUsers (snd joined)) =
        (if getCurrentUser st socketId = None then Suc (length (connectedUsers st))
         else length (connectedUsers st))
    \<and> fst joined = \<lparr>p_id = userId, p_socketId = socketId, p_sessionId = sessionId,
                      p_username = username, p_room = room, p_joinedAt = now\<rparr>
    \<and> records_of anyId (snd joined) =
        (if anyId = socketId
         then [\<lparr>p_id = userId, p_socketId = socketId, p_sessionId = sessionId,
                 p_username = username, p_room = room, p_joinedAt = now\<rparr>]
         else records_of anyId st)
    \<and> records_of anyId (snd (userLeave flt now st socketId)) =
        (if anyId = socketId then [] else records_of anyId st)"
proof -
  have d: "distinct (map fst (connectedUsers (run_calls calls (startup d))))"
    by (rule distinct_run_calls) (simp add: startup_def)
  have one: "length (records_of anyId (run_calls calls (startup d))) \<le> 1"
    unfolding records_of_def using records_of_distinct [OF d] by simp
  let ?st = "run_calls calls (startup d)"
  let ?j = "userJoin flt now ?st socketId sessionId userId username room ip ua"
  let ?new = "\<lparr>p_id = userId, p_socketId = socketId, p_sessionId = sessionId,
                p_username = username, p_room = room, p_joinedAt = now\<rparr>"
  have recs: "records_of socketId (snd ?j) = [fst ?j]"
    unfolding records_of_def connectedUsers_userJoin
    by (simp only: filter_Map_set [OF d] list.map snd_conv)
  have cur: "getCurrentUser (snd ?j) socketId = Some (fst ?j)"
    unfolding getCurrentUser_def connectedUsers_userJoin
    by (simp only: Map_get_Map_set if_True refl)
  have len: "length (connectedUsers (snd ?j)) =
        (if getCurrentUser ?st socketId = None then Suc (length (connectedUsers ?st))
         else length (connectedUsers ?st))"
    unfolding getCurrentUser_def connectedUsers_userJoin
    by (rule length_Map_set)
  have new: "fst ?j = ?new"
    by (rule fst_userJoin)
  have any: "records_of anyId (snd ?j) = (if anyId = socketId then [?new] else records_of anyId ?st)"
  proof (cases "anyId = socketId")
    case True
    with recs new show ?thesis by simp
  next
    case False
    then show ?thesis
      unfolding records_of_def connectedUsers_userJoin
      by (simp add: filter_Map_set_other)
  qed
  have left: "records_of anyId (snd (userLeave flt now ?st socketId)) =
        (if anyId = socketId then [] else records_of anyId ?st)"
  proof (cases "Map_get (connectedUsers ?st) socketId")
    case None
    then show ?thesis
      unfolding records_of_def connectedUsers_userLeave
      using Map_get_None_filter [of "connectedUsers ?st" socketId] by simp
  next
    case (Some user)
    then show ?thesis
      unfolding records_of_def connectedUsers_userLeave
      using filter_Map_delete [OF d, of anyId socketId] by simp
  qed
  show ?thesis
    unfolding Let_def by (intro conjI d one recs cur len new any left)
qed

theorem presence_one_record_per_connection_witness:
  "records_of ''s1'' (run_calls carol_rejoins (startup alice_db)) = [alice_present]
   \<and> records_of ''s1'' (snd (userJoin session_write_fails 300 (run_calls carol_rejoins (startup alice_db))
        ''s1'' ''s1'' 3 ''carol'' ''random'' None None)) =
       [\<lparr>p_id = 3, p_socketId = ''s1'', p_sessionId = ''s1'', p_username = ''carol'',
         p_room = ''random'', p_joinedAt = 300\<rparr>]
   \<and> length (connectedUsers (snd (userJoin session_write_fails 300 (run_calls carol_rejoins (startup alice_db))
        ''s1'' ''s1'' 3 ''carol'' ''random'' None None))) = 2
   \<and> records_of ''s1'' (snd (userLeave session_write_fails 300 (run_calls carol_rejoins (startup alice_db))
        ''s1'')) = []"
proof -
  have before: "records_of ''s1'' (run_calls carol_rejoins (startup alice_db)) = [alice_present]"
    by code_simp
  have known: "getCurrentUser (run_calls carol_rejoins (startup alice_db)) ''s1'' \<noteq> None"
    by code_simp
  have two: "length (connectedUsers (run_calls carol_rejoins (startup alice_db))) = 2"
    by code_simp
  note inst = presence_one_record_per_connection [where calls = carol_rejoins and d = alice_db
      and flt = session_write_fails and now = 300 and socketId = "''s1''" and sessionId = "''s1''"
      and userId = 3 and username = "''carol''" and room = "''random''" and ip = None and ua = None
      and anyId = "''s1''", unfolded Let_def]
  note size = inst [THEN conjunct2, THEN conjunct2, THEN conjunct2, THEN conjunct2, THEN conjunct1]
  note replaced = inst [THEN conjunct2, THEN conjunct2, THEN conjunct2, THEN conjunct2, THEN conjunct2,
      THEN conjunct2, THEN conjunct1]
  note left = inst [THEN conjunct2, THEN conjunct2, THEN conjunct2, THEN conjunct2, THEN conjunct2,
      THEN conjunct2, THEN conjunct2]
  show ?thesis
    using before size replaced left known two by simp
qed

section \<open>Messages that are refused\<close>

text \<open>
  C4. A \<open>chatMessage\<close> event from a connection without a presence record produces one
  effect, a \<open>messageError\<close> emitted to that connection's own socket, and leaves the
  server as it was: nothing goes to a room and no table changes.
\<close>

theorem chatMessage_without_presence:
  assumes "getCurrentUser st socketId = None"
  shows "chatMessage flt now st socketId msg =
           (st, [Emit (ToSocket socketId) (MessageError ''User session not found'')])"
  using assms by (simp add: chatMessage_def)

theorem chatMessage_without_presence_witness:
  "getCurrentUser (startup alice_db) ''s9'' = None \<and>
   chatMessage nothing_fails 200 (startup alice_db) ''s9'' (JString ''hello'') =
     (startup alice_db, [Emit (ToSocket ''s9'') (MessageError ''User session not found'')])"
proof -
  have none: "getCurrentUser (startup alice_db) ''s9'' = None"
    by (simp add: getCurrentUser_def startup_def)
  show ?thesis
    using none chatMessage_without_presence [OF none] by simp
qed

text \<open>
  C5. A payload that is not a string, or a string that is empty once trimmed, is
  answered with one \<open>messageError\<close> on the sender's own socket, whether or not the
  sender has a presence record; nothing goes to a room and no table changes.
\<close>

theorem chatMessage_invalid_payload:
  assumes "typeof msg \<noteq> ''string'' \<or> (\<exists>text. msg = JString text \<and> trim text = [])"
  shows "\<exists>reason. chatMessage flt now st socketId msg =
           (st, [Emit (ToSocket socketId) (MessageError reason)])"
proof (cases "getCurrentUser st socketId")
  case None
  then show ?thesis by (simp add: chatMessage_def)
next
  case (Some user)
  from assms show ?thesis
  proof
    assume "typeof msg \<noteq> ''string''"
    with Some show ?thesis by (simp add: chatMessage_def)
  next
    assume "\<exists>text. msg = JString text \<and> trim text = []"
    then obtain s where "msg = JString s" and "trim s = []" by blast
    with Some show ?thesis by (simp add: chatMessage_def)
  qed
qed

theorem chatMessage_invalid_payload_witness:
  "trim [CHR '' '', CHR 0x09, CHR '' ''] = [] \<and>
   chatMessage nothing_fails 200 alice_joined ''s1'' (JString [CHR '' '', CHR 0x09, CHR '' '']) =
     (alice_joined, [Emit (ToSocket ''s1'') (MessageError ''Empty message'')]) \<and>
   chatMessage nothing_fails 200 alice_joined ''s1'' (JNumber (Num 7)) =
     (alice_joined, [Emit (ToSocket ''s1'') (MessageError ''Invalid message'')])"
proof -
  have blank: "trim [CHR '' '', CHR 0x09, CHR '' ''] = []"
    by code_simp
  have present: "getCurrentUser alice_joined ''s1'' = Some alice_present"
    by (simp add: getCurrentUser_def alice_joined_def)
  obtain r1 where r1: "chatMessage nothing_fails 200 alice_joined ''s1'' (JString [CHR '' '', CHR 0x09, CHR '' ''])
      = (alice_joined, [Emit (ToSocket ''s1'') (MessageError r1)])"
    using chatMessage_invalid_payload [of "JString [CHR '' '', CHR 0x09, CHR '' '']"] blank by blast
  have e1: "chatMessage nothing_fails 200 alice_joined ''s1'' (JString [CHR '' '', CHR 0x09, CHR '' ''])
      = (alice_joined, [Emit (ToSocket ''s1'') (MessageError ''Empty message'')])"
    using present blank by (simp add: chatMessage_def)
  have e2: "chatMessage nothing_fails 200 alice_joined ''s1'' (JNumber (Num 7))
      = (alice_joined, [Emit (ToSocket ''s1'') (MessageError ''Invalid message'')])"
    using present by (simp add: chatMessage_def)
  from r1 e1 have "r1 = ''Empty message''" by simp
  with blank r1 e2 show ?thesis by simp
qed

section \<open>Where the roster comes from\<close>

lemma set_users_join_sessions:
  "set (users_join_sessions d) =
     {(u, s). u \<in> set (users d) \<and> s \<in> set (active_sessions d) \<and> u_id u = s_user_id s}"
  by (auto simp: users_join_sessions_def)

lemma getUsersInRoom_rows:
  assumes "Session_getUsersInRoom fails now d room = Inr rows" and "rows \<noteq> []"
  shows "sorted (map rr_username rows)"
    and "distinct rows"
    and "set rows = {select_roster (u, s) | u s.
           u \<in> set (users d) \<and> s \<in> set (active_sessions d) \<and> u_id u = s_user_id s
           \<and> s_room_name s = Some room \<and> now - 3600 < s_last_activity s}"
proof -
  let ?picked = "filter (\<lambda>us. s_room_name (snd us) = Some room \<and> now - 3600 < s_last_activity (snd us))
                   (users_join_sessions d)"
  have rows: "rows = sort_key rr_username (remdups (map select_roster ?picked))"
    using assms by (auto simp: Session_getUsersInRoom_def split: if_splits)
  show "sorted (map rr_username rows)"
    unfolding rows by (rule sorted_sort_key)
  show "distinct rows"
    unfolding rows by simp
  have "set rows = select_roster ` set ?picked"
    unfolding rows by simp
  also have "\<dots> = {select_roster (u, s) | u s.
           u \<in> set (users d) \<and> s \<in> set (active_sessions d) \<and> u_id u = s_user_id s
           \<and> s_room_name s = Some room \<and> now - 3600 < s_last_activity s}"
    unfolding set_filter set_users_join_sessions by fastforce
  finally show "set rows = {select_roster (u, s) | u s.
           u \<in> set (users d) \<and> s \<in> set (active_sessions d) \<and> u_id u = s_user_id s
           \<and> s_room_name s = Some room \<and> now - 3600 < s_last_activity s}" .
qed

text \<open>
  C8. When the session query succeeds with at least one row, \<open>getRoomUsers\<close> returns
  exactly those rows (one roster entry per row, in the query's order): the rows are the
  distinct pairings of a user with one of its sessions in the room whose last activity
  is less than an hour old, in ascending order of username. When the query fails or
  returns no row, the result is the registry's records of that room, in registry order,
  every one marked online.
\<close>

theorem getRoomUsers_sources:
  "(\<forall>rows. Session_getUsersInRoom (flt RosterQuery) now (db st) room = Inr rows \<and> rows \<noteq> [] \<longrightarrow>
       getRoomUsers flt now st room = map roster_of_row rows
     \<and> sorted (map rr_username rows) \<and> distinct rows
     \<and> set rows = {select_roster (u, s) | u s.
           u \<in> set (users (db st)) \<and> s \<in> set (active_sessions (db st)) \<and> u_id u = s_user_id s
           \<and> s_room_name s = Some room \<and> now - 3600 < s_last_activity s})
   \<and> ((\<exists>e. Session_getUsersInRoom (flt RosterQuery) now (db st) room = Inl e)
        \<or> Session_getUsersInRoom (flt RosterQuery) now (db st) room = Inr [] \<longrightarrow>
       getRoomUsers flt now st room =
         map roster_of_presence (filter (\<lambda>user. p_room user = room) (map snd (connectedUsers st)))
     \<and> list_all re_isOnline (getRoomUsers flt now st room))"
proof (intro conjI allI impI)
  fix rows
  assume a: "Session_getUsersInRoom (flt RosterQuery) now (db st) room = Inr rows \<and> rows \<noteq> []"
  then show "getRoomUsers flt now st room = map roster_of_row rows"
    by (simp add: getRoomUsers_def)
  from a show "sorted (map rr_username rows)"
    using getUsersInRoom_rows(1) by blast
  from a show "distinct rows"
    using getUsersInRoom_rows(2) by blast
  from a show "set rows = {select_roster (u, s) | u s.
           u \<in> set (users (db st)) \<and> s \<in> set (active_sessions (db st)) \<and> u_id u = s_user_id s
           \<and> s_room_name s = Some room \<and> now - 3600 < s_last_activity s}"
    using getUsersInRoom_rows(3) [of "flt RosterQuery" now "db st" room rows] by blast
next
  assume b: "(\<exists>e. Session_getUsersInRoom (flt RosterQuery) now (db st) room = Inl e)
        \<or> Session_getUsersInRoom (flt RosterQuery) now (db st) room = Inr []"
  then have fallback: "getRoomUsers flt now st room = memory_roster st room"
    by (auto simp: getRoomUsers_def)
  then show "getRoomUsers flt now st room =
         map roster_of_presence (filter (\<lambda>user. p_room user = room) (map snd (connectedUsers st)))"
    by (simp add: memory_roster_def Map_values_def)
  show "list_all re_isOnline (getRoomUsers flt now st room)"
    unfolding fallback memory_roster_def
    by (simp add: list_all_iff roster_of_presence_def)
qed

theorem getRoomUsers_sources_witness:
  "getRoomUsers nothing_fails 200 alice_in_session ''general'' =
     [\<lparr>re_id = None, re_username = ''alice'', re_isOnline = True, re_avatar = None\<rparr>]
   \<and> getRoomUsers (\<lambda>s. s = RosterQuery) 200 alice_in_session ''general'' =
     [\<lparr>re_id = Some 1, re_username = ''alice'', re_isOnline = True, re_avatar = None\<rparr>]
   \<and> getRoomUsers nothing_fails 5000 alice_in_session ''general'' =
     [\<lparr>re_id = Some 1, re_username = ''alice'', re_isOnline = True, re_avatar = None\<rparr>]"
proof -
  let ?row = "\<lparr>rr_id = 1, rr_username = ''alice'', rr_is_online = False, rr_avatar_url = None,
                rr_last_activity = 100, rr_socket_id = Some ''s1''\<rparr>"
  have q1: "Session_getUsersInRoom (nothing_fails RosterQuery) 200 (db alice_in_session) ''general''
      = Inr [?row]"
    by code_simp
  have q2: "Session_getUsersInRoom ((\<lambda>s. s = RosterQuery) RosterQuery) 200 (db alice_in_session) ''general''
      = Inl (Error ''Failed to get users in room: Connection lost'')"
    by code_simp
  have q3: "Session_getUsersInRoom (nothing_fails RosterQuery) 5000 (db alice_in_session) ''general''
      = Inr []"
    by code_simp
  have mem: "map roster_of_presence
      (filter (\<lambda>user. p_room user = ''general'') (map snd (connectedUsers alice_in_session)))
      = [\<lparr>re_id = Some 1, re_username = ''alice'', re_isOnline = True, re_avatar = None\<rparr>]"
    by code_simp
  have r1: "getRoomUsers nothing_fails 200 alice_in_session ''general'' = map roster_of_row [?row]"
    using getRoomUsers_sources [of nothing_fails 200 alice_in_session "''general''"] q1 by blast
  have r2: "getRoomUsers (\<lambda>s. s = RosterQuery) 200 alice_in_session ''general'' =
      map roster_of_presence
        (filter (\<lambda>user. p_room user = ''general'') (map snd (connectedUsers alice_in_session)))"
    using getRoomUsers_sources [of "\<lambda>s. s = RosterQuery" 200 alice_in_session "''general''"] q2 by blast
  have r3: "getRoomUsers nothing_fails 5000 alice_in_session ''general'' =
      map roster_of_presence
        (filter (\<lambda>user. p_room user = ''general'') (map snd (connectedUsers alice_in_session)))"
    using getRoomUsers_sources [of nothing_fails 5000 alice_in_session "''general''"] q3 by blast
  show ?thesis
    unfolding r1 r2 r3 mem by (simp add: roster_of_row_def)
qed

section \<open>The limit of a history query\<close>

lemma isDigitOf_10_iff: "isDigitOf 10 c \<longleftrightarrow> 48 \<le> (of_char c :: int) \<and> (of_char c :: int) \<le> 57"
  by (auto simp: isDigitOf_def digitValue_def Let_def)

lemma digit_not_space: "isDigitOf 10 c \<Longrightarrow> \<not> isWhiteSpace c"
  by (auto simp: isDigitOf_10_iff isWhiteSpace_def)

lemma digit_not_sign: "isDigitOf 10 c \<Longrightarrow> c \<noteq> CHR ''-'' \<and> c \<noteq> CHR ''+'' \<and> c \<noteq> CHR ''.''"
  by (auto simp: isDigitOf_10_iff)

lemma isDigitOf_digit: "0 \<le> (n::int) \<Longrightarrow> n < 10 \<Longrightarrow> isDigitOf 10 (char_of (48 + n))"
  by (simp add: isDigitOf_def digitValue_digit)

lemma decimal_digits: "0 \<le> n \<Longrightarrow> c \<in> set (decimal n) \<Longrightarrow> isDigitOf 10 c"
proof (induction n rule: decimal.induct)
  case (1 n)
  show ?case
  proof (cases "n < 10")
    case True
    then have "decimal n = [char_of (48 + n)]"
      by (subst decimal.simps) simp
    with "1.prems" True show ?thesis
      by (simp add: isDigitOf_digit)
  next
    case False
    then have unfold: "decimal n = decimal (n div 10) @ [char_of (48 + n mod 10)]"
      by (subst decimal.simps) simp
    have last: "isDigitOf 10 (char_of (48 + n mod 10))"
      by (rule isDigitOf_digit) simp_all
    from "1.prems" have "c \<in> set (decimal (n div 10)) \<or> c = char_of (48 + n mod 10)"
      unfolding unfold by auto
    then show ?thesis
    proof
      assume "c \<in> set (decimal (n div 10))"
      with "1.IH" False "1.prems" show ?thesis by simp
    next
      assume "c = char_of (48 + n mod 10)"
      with last show ?thesis by simp
    qed
  qed
qed

lemma decimal_nonempty: "decimal n \<noteq> []"
  by (subst decimal.simps) simp

lemma hd_decimal:
  "0 < n \<Longrightarrow> \<exists>v. digitValue (hd (decimal n)) = Some v \<and> 1 \<le> v \<and> v \<le> 9"
proof (induction n rule: decimal.induct)
  case (1 n)
  show ?case
  proof (cases "n < 10")
    case True
    then have "decimal n = [char_of (48 + n)]"
      by (subst decimal.simps) simp
    with "1.prems" True show ?thesis
      by (simp add: digitValue_digit)
  next
    case False
    then have "decimal n = decimal (n div 10) @ [char_of (48 + n mod 10)]"
      by (subst decimal.simps) simp
    then have "hd (decimal n) = hd (decimal (n div 10))"
      by (simp add: decimal_nonempty)
    with "1.IH" False show ?thesis by simp
  qed
qed

text \<open>\<open>parseInt\<close> with radix 10 on a run of decimal digits, with or without a minus sign.\<close>

lemma takeWhile_all: "(\<And>c. c \<in> set Z \<Longrightarrow> P c) \<Longrightarrow> takeWhile P (Z @ rest) = Z @ takeWhile P rest"
  by (induction Z) auto

lemma parseInt_digits:
  assumes digits: "\<And>c. c \<in> set Z \<Longrightarrow> isDigitOf 10 c" and "Z \<noteq> []"
    and stop: "rest = [] \<or> \<not> isDigitOf 10 (hd rest)"
  shows "parseInt (Z @ rest) 10 = toNumber (digitsValue 10 Z)"
    and "parseInt (''-'' @ Z @ rest) 10 = toNumber (- digitsValue 10 Z)"
proof -
  obtain z zs where Z: "Z = z # zs"
    using assms(2) by (cases Z) auto
  have z: "isDigitOf 10 z"
    using digits Z by simp
  have tw: "takeWhile (isDigitOf 10) (Z @ rest) = Z"
    using takeWhile_all [of Z "isDigitOf 10" rest] digits stop
    by (cases rest) auto
  have dw: "dropWhile isWhiteSpace (Z @ rest) = Z @ rest"
    using z digit_not_space Z by simp
  show "parseInt (Z @ rest) 10 = toNumber (digitsValue 10 Z)"
    unfolding parseInt_def dw Let_def
    using tw z digit_not_sign [OF z] Z by simp
  have dw': "dropWhile isWhiteSpace (''-'' @ Z @ rest) = ''-'' @ Z @ rest"
    by (simp add: isWhiteSpace_def)
  show "parseInt (''-'' @ Z @ rest) 10 = toNumber (- digitsValue 10 Z)"
    unfolding parseInt_def dw' Let_def
    using tw Z by simp
qed

text \<open>Rounding to a double: what it keeps, and that a double rounds to itself.\<close>

lemma normalize_range:
  "2 ^ 53 \<le> x \<Longrightarrow> normalize x sticky e = (y, sticky', e') \<Longrightarrow> 2 ^ 53 \<le> y \<and> y < 2 ^ 54"
proof (induction x sticky e rule: normalize.induct)
  case (1 x sticky e)
  show ?case
  proof (cases "x < 2 ^ 54")
    case True
    with "1.prems" show ?thesis
      by (subst (asm) normalize.simps) simp
  next
    case False
    then have next_call: "normalize (x div 2) (sticky \<or> odd x) (Suc e) = (y, sticky', e')"
      using "1.prems"(2) by (subst (asm) normalize.simps) simp
    from False have "2 ^ 53 \<le> x div 2" by simp
    with "1.IH" False next_call show ?thesis by blast
  qed
qed

lemma round53_small: "x < 2 ^ 53 \<Longrightarrow> round53 x = x"
  by (simp add: round53_def)

lemma round53_large:
  assumes "2 ^ 53 \<le> x"
  shows "2 ^ 53 \<le> round53 x"
proof -
  obtain y sticky e where n: "normalize x False 0 = (y, sticky, e)"
    by (cases "normalize x False 0")
  then have y: "2 ^ 53 \<le> y" "y < 2 ^ 54"
    using normalize_range [OF assms] by blast+
  define q where "q = (if odd y \<and> (sticky \<or> odd (y div 2)) then y div 2 + 1 else y div 2)"
  have q: "2 ^ 52 \<le> q"
    using y by (auto simp: q_def)
  have r: "round53 x = q * 2 ^ Suc e"
    using assms n by (simp add: round53_def q_def)
  have "(2 ^ 52 :: int) * 2 \<le> q * 2 ^ Suc e"
    using q by (intro mult_mono) auto
  then show ?thesis
    unfolding r by simp
qed

lemma normalize_shifted:
  "2 ^ 52 \<le> q \<Longrightarrow> q < 2 ^ 53 \<Longrightarrow> normalize (q * 2 ^ Suc j) sticky e = (2 * q, sticky, e + j)"
proof (induction j arbitrary: e)
  case 0
  then show ?case
    by (subst normalize.simps) (simp add: mult.commute)
next
  case (Suc j)
  have big: "\<not> q * 2 ^ Suc (Suc j) < 2 ^ 54"
  proof -
    have "(2 ^ 52 :: int) * 4 \<le> q * 2 ^ Suc (Suc j)"
      using Suc.prems(1) by (intro mult_mono) auto
    then show ?thesis by simp
  qed
  have half: "(q * 2 ^ Suc (Suc j)) div 2 = q * 2 ^ Suc j"
    by simp
  have even: "\<not> odd (q * 2 ^ Suc (Suc j))"
    by simp
  have "normalize (q * 2 ^ Suc (Suc j)) sticky e = normalize (q * 2 ^ Suc j) sticky (Suc e)"
    using big by (subst normalize.simps) (simp only: half even if_False simp_thms)
  then show ?case
    using Suc.IH [OF Suc.prems, of "Suc e"] by simp
qed

lemma round53_of_double:
  assumes "2 ^ 52 \<le> q" and "q < 2 ^ 53"
  shows "round53 (q * 2 ^ Suc j) = q * 2 ^ Suc j"
proof -
  have "(2 ^ 52 :: int) * 2 \<le> q * 2 ^ Suc j"
    using assms(1) by (intro mult_mono) auto
  then have big: "\<not> q * 2 ^ Suc j < 2 ^ 53"
    by simp
  show ?thesis
    using big normalize_shifted [OF assms, of j False 0]
    by (simp add: round53_def)
qed

lemma round53_idempotent: "round53 (round53 x) = round53 x"
proof (cases "x < 2 ^ 53")
  case True
  then show ?thesis by (simp add: round53_small)
next
  case False
  obtain y sticky e where n: "normalize x False 0 = (y, sticky, e)"
    by (cases "normalize x False 0")
  then have y: "2 ^ 53 \<le> y" "y < 2 ^ 54"
    using normalize_range [of x False 0 y sticky e] False by auto
  define q where "q = (if odd y \<and> (sticky \<or> odd (y div 2)) then y div 2 + 1 else y div 2)"
  have q: "2 ^ 52 \<le> q" "q \<le> 2 ^ 53"
    using y by (auto simp: q_def)
  have r: "round53 x = q * 2 ^ Suc e"
    using False n by (simp add: round53_def q_def)
  show ?thesis
  proof (cases "q < 2 ^ 53")
    case True
    then show ?thesis
      unfolding r using q(1) by (rule round53_of_double [rotated])
  next
    case False
    with q have "q = 2 ^ 53" by simp
    then have "q * 2 ^ Suc e = 2 ^ 52 * 2 ^ Suc (Suc e)"
      by simp
    moreover have "round53 (2 ^ 52 * 2 ^ Suc (Suc e)) = 2 ^ 52 * 2 ^ Suc (Suc e)"
      by (rule round53_of_double) simp_all
    ultimately show ?thesis
      unfolding r by simp
  qed
qed

lemma round53_nonneg: "0 \<le> x \<Longrightarrow> 0 \<le> round53 x"
proof (cases "x < 2 ^ 53")
  case True
  then show "0 \<le> x \<Longrightarrow> ?thesis" by (simp add: round53_small)
next
  case False
  then have "(2 ^ 53 :: int) \<le> round53 x"
    by (intro round53_large) simp
  then show ?thesis by simp
qed

lemma is_double_toNumber: "is_double (toNumber n)"
proof -
  have "\<bar>round53 x\<bar> = round53 x" if "0 \<le> x" for x
    using round53_nonneg [OF that] by simp
  then have "round53 \<bar>round53 x\<bar> = \<bar>round53 x\<bar>" if "0 \<le> x" for x
    using that by (simp add: round53_idempotent)
  from this [of n] this [of "- n"] show ?thesis
    by (auto simp: is_double_def toNumber_def)
qed

lemma is_double_parseInt: "is_double (parseInt s radix)"
  by (simp add: parseInt_def Let_def is_double_toNumber) (simp add: is_double_def)

lemma is_double_query_limit: "is_double (query_limit q)"
  using is_double_parseInt [of "case q of None \<Rightarrow> ''undefined'' | Some t \<Rightarrow> t" 0]
  by (simp add: query_limit_def requested_limit_def or_default_def is_double_def round53_small)

text \<open>The shortest digits of a double read back as the double.\<close>

lemma shortest_candidate_rounds:
  assumes "0 \<le> v" and "shortest_candidate v k = Some x"
  shows "round53 x = v \<and> 0 \<le> x"
proof -
  define p :: int where "p = 10 ^ (length (decimal v) - k)"
  have p: "0 < p" by (simp add: p_def)
  have c1: "0 \<le> (v div p) * p"
    using assms(1) p by (simp add: pos_imp_zdiv_nonneg_iff)
  from assms(2) have "(x = (v div p) * p \<or> x = (v div p) * p + p) \<and> round53 x = v"
    unfolding shortest_candidate_def Let_def p_def [symmetric]
    by (auto split: if_splits)
  with c1 p show ?thesis by auto
qed

lemma shortest_from_rounds:
  "0 \<le> v \<Longrightarrow> round53 v = v \<Longrightarrow> round53 (shortest_from v k) = v \<and> 0 \<le> shortest_from v k"
proof (induction v k rule: shortest_from.induct)
  case (1 v k)
  show ?case
  proof (cases "length (decimal v) \<le> k")
    case True
    then have "shortest_from v k = v"
      by (subst shortest_from.simps) simp
    with "1.prems" show ?thesis by simp
  next
    case False
    show ?thesis
    proof (cases "shortest_candidate v k")
      case None
      with False have "shortest_from v k = shortest_from v (Suc k)"
        by (subst shortest_from.simps) simp
      with "1.IH" False None "1.prems" show ?thesis by simp
    next
      case (Some x)
      with False have "shortest_from v k = x"
        by (subst shortest_from.simps) simp
      with shortest_candidate_rounds [OF "1.prems"(1) Some] show ?thesis by simp
    qed
  qed
qed

lemma shortest_rounds:
  assumes "is_double (Num n)"
  shows "round53 (shortest \<bar>n\<bar>) = \<bar>n\<bar>" and "0 \<le> shortest \<bar>n\<bar>"
  using assms shortest_from_rounds [of "\<bar>n\<bar>" 1]
  by (simp_all add: is_double_def shortest_def)

lemma shortest_safe:
  assumes "\<bar>n\<bar> < 2 ^ 53"
  shows "shortest \<bar>n\<bar> = \<bar>n\<bar>"
proof -
  have d: "is_double (Num n)"
    using assms by (simp add: is_double_def round53_small)
  have "shortest \<bar>n\<bar> < 2 ^ 53"
  proof (rule ccontr)
    assume "\<not> shortest \<bar>n\<bar> < 2 ^ 53"
    then have "2 ^ 53 \<le> round53 (shortest \<bar>n\<bar>)"
      by (intro round53_large) simp
    with shortest_rounds(1) [OF d] assms show False by simp
  qed
  then show ?thesis
    using shortest_rounds(1) [OF d] by (simp add: round53_small)
qed

text \<open>Reading back the text of a number.\<close>

lemma toNumber_moderate:
  assumes "0 \<le> x" and "x < 10 ^ 21"
  shows "toNumber x = Num (round53 x)" and "toNumber (- x) = Num (- round53 x)"
proof -
  have small: "(10::int) ^ 21 < 2 ^ 1024 - 2 ^ 970" by simp
  show "toNumber x = Num (round53 x)"
    using assms small by (simp add: toNumber_def)
  show "toNumber (- x) = Num (- round53 x)"
  proof (cases "x = 0")
    case True
    then show ?thesis using small by (simp add: toNumber_def round53_small)
  next
    case False
    with assms small show ?thesis by (simp add: toNumber_def)
  qed
qed

lemma parseInt_numberToString:
  assumes d: "is_double (Num n)" and short: "shortest \<bar>n\<bar> < 10 ^ 21"
  shows "parseInt (numberToString (Num n)) 10 = Num n"
proof -
  let ?x = "shortest \<bar>n\<bar>"
  have x: "round53 ?x = \<bar>n\<bar>" "0 \<le> ?x"
    using shortest_rounds [OF d] by simp_all
  have digits: "\<And>c. c \<in> set (decimal ?x) \<Longrightarrow> isDigitOf 10 c"
    using decimal_digits [OF x(2)] by simp
  have val: "digitsValue 10 (decimal ?x) = ?x"
    by (rule digitsValue_decimal [OF x(2)])
  show ?thesis
  proof (cases "n < 0")
    case False
    then have "numberToString (Num n) = decimal ?x @ []"
      using short by (simp add: numberToString_def)
    moreover have "parseInt (decimal ?x @ []) 10 = toNumber (digitsValue 10 (decimal ?x))"
      using digits by (intro parseInt_digits(1)) (auto simp: decimal_nonempty)
    ultimately show ?thesis
      using False x val toNumber_moderate(1) [OF x(2) short] by simp
  next
    case True
    then have "numberToString (Num n) = ''-'' @ decimal ?x @ []"
      using short by (simp add: numberToString_def)
    moreover have "parseInt (''-'' @ decimal ?x @ []) 10 = toNumber (- digitsValue 10 (decimal ?x))"
      using digits by (intro parseInt_digits(2)) (auto simp: decimal_nonempty)
    ultimately show ?thesis
      using True x val toNumber_moderate(2) [OF x(2) short] by simp
  qed
qed

lemma dropWhile_keeps_last: "\<not> P c \<Longrightarrow> \<exists>ys. dropWhile P (xs @ [c]) = ys @ [c]"
  by (induction xs) auto

lemma strip_zeros_keeps_first:
  assumes "c \<noteq> CHR ''0''"
  shows "\<exists>r. strip_zeros (c # cs) = c # r"
proof -
  obtain ys where "dropWhile (\<lambda>c. c = CHR ''0'') (rev cs @ [c]) = ys @ [c]"
    using dropWhile_keeps_last [of "\<lambda>c. c = CHR ''0''" c "rev cs"] assms by blast
  then show ?thesis
    by (simp add: strip_zeros_def)
qed

lemma parseInt_exponent_notation:
  assumes d: "is_double (Num n)" and long: "10 ^ 21 \<le> shortest \<bar>n\<bar>"
  shows "\<exists>v. parseInt (numberToString (Num n)) 10 = Num (if n < 0 then - v else v) \<and> 1 \<le> v \<and> v \<le> 9"
proof -
  let ?x = "shortest \<bar>n\<bar>"
  have pos: "0 < ?x" using long by simp
  obtain c cs where ds: "decimal ?x = c # cs"
    using decimal_nonempty [of ?x] by (cases "decimal ?x") auto
  obtain v where v: "digitValue c = Some v" "1 \<le> v" "v \<le> 9"
    using hd_decimal [OF pos] ds by auto
  have c: "isDigitOf 10 c"
    using v by (simp add: isDigitOf_def)
  have nonzero: "c \<noteq> CHR ''0''"
    using v by (auto simp: digitValue_def)
  have val: "digitsValue 10 [c] = v"
    using v by (simp add: digitsValue_def)
  obtain r where s: "strip_zeros (c # cs) = c # r"
    using strip_zeros_keeps_first [OF nonzero] by blast
  let ?rest = "(if 1 < length (c # r) then ''.'' @ r else []) @ ''e+'' @ decimal (int (length (c # cs)) - 1)"
  have en: "exponent_notation ?x = [c] @ ?rest"
    by (simp add: exponent_notation_def ds s Let_def)
  have stop: "?rest = [] \<or> \<not> isDigitOf 10 (hd ?rest)"
    by (simp add: isDigitOf_10_iff)
  have small: "toNumber v = Num v" "toNumber (- v) = Num (- v)"
    using v toNumber_moderate [of v] by (simp_all add: round53_small)
  show ?thesis
  proof (cases "n < 0")
    case False
    then have "numberToString (Num n) = [c] @ ?rest"
      using long en by (simp add: numberToString_def)
    moreover have "parseInt ([c] @ ?rest) 10 = toNumber (digitsValue 10 [c])"
      using c stop by (intro parseInt_digits(1)) auto
    ultimately show ?thesis
      using False v val small by auto
  next
    case True
    then have "numberToString (Num n) = ''-'' @ [c] @ ?rest"
      using long en by (simp add: numberToString_def)
    moreover have "parseInt (''-'' @ [c] @ ?rest) 10 = toNumber (- digitsValue 10 [c])"
      using c stop by (intro parseInt_digits(2)) auto
    ultimately show ?thesis
      using True v val small by auto
  qed
qed

text \<open>What \<open>getRecentMessages\<close> makes of the limit it is given.\<close>

lemma messageLimit_moderate:
  assumes "is_double (Num n)" and "shortest \<bar>n\<bar> < 10 ^ 21"
  shows "messageLimit (Num n) = Num (if n = 0 then 50 else max 1 (min n 1000))"
  using assms by (simp add: messageLimit_def parseInt_numberToString or_default_def)

lemma messageLimit_huge:
  assumes "is_double (Num n)" and "10 ^ 21 \<le> shortest \<bar>n\<bar>"
  shows "\<exists>k. messageLimit (Num n) = Num k \<and> 1 \<le> k \<and> k \<le> 9 \<and> (n < 0 \<longrightarrow> k = 1)"
    and "2 ^ 53 \<le> \<bar>n\<bar>"
proof -
  obtain v where v: "parseInt (numberToString (Num n)) 10 = Num (if n < 0 then - v else v)"
      "1 \<le> v" "v \<le> 9"
    using parseInt_exponent_notation [OF assms] by blast
  then show "\<exists>k. messageLimit (Num n) = Num k \<and> 1 \<le> k \<and> k \<le> 9 \<and> (n < 0 \<longrightarrow> k = 1)"
    by (cases "n < 0") (auto simp: messageLimit_def or_default_def)
  have "(2 ^ 53 :: int) \<le> shortest \<bar>n\<bar>"
    using assms(2) by simp
  then have "2 ^ 53 \<le> round53 (shortest \<bar>n\<bar>)"
    by (rule round53_large)
  then show "2 ^ 53 \<le> \<bar>n\<bar>"
    using shortest_rounds(1) [OF assms(1)] by simp
qed

lemma messageLimit_not_a_number:
  "messageLimit NaN = Num 50" "messageLimit PosInfinity = Num 50" "messageLimit NegInfinity = Num 50"
  by code_simp+

lemma messageLimit_bounded:
  assumes "is_double limit"
  shows "\<exists>k. messageLimit limit = Num k \<and> 1 \<le> k \<and> k \<le> effective_limit limit \<and> k \<le> 1000"
proof (cases limit)
  case (Num n)
  show ?thesis
  proof (cases "shortest \<bar>n\<bar> < 10 ^ 21")
    case True
    then show ?thesis
      using assms unfolding Num
      by (auto simp: messageLimit_moderate effective_limit_def clamp_limit_def)
  next
    case False
    then have long: "10 ^ 21 \<le> shortest \<bar>n\<bar>" by simp
    obtain k where "messageLimit (Num n) = Num k" "1 \<le> k" "k \<le> 9" "n < 0 \<longrightarrow> k = 1"
      using messageLimit_huge(1) [of n] assms long unfolding Num by blast
    moreover have "2 ^ 53 \<le> \<bar>n\<bar>"
      using messageLimit_huge(2) [of n] assms long unfolding Num by blast
    ultimately show ?thesis
      unfolding Num by (auto simp: effective_limit_def clamp_limit_def)
  qed
qed (simp_all add: messageLimit_not_a_number effective_limit_def)

lemma messageLimit_exact:
  assumes "\<And>n. limit = Num n \<Longrightarrow> \<bar>n\<bar> < 2 ^ 53"
  shows "messageLimit limit = Num (effective_limit limit)"
proof (cases limit)
  case (Num n)
  then have safe: "\<bar>n\<bar> < 2 ^ 53"
    using assms by simp
  then have "is_double (Num n)" "shortest \<bar>n\<bar> < 10 ^ 21"
    by (simp_all add: is_double_def round53_small shortest_safe)
  then show ?thesis
    unfolding Num by (simp add: messageLimit_moderate effective_limit_def clamp_limit_def)
qed (simp_all add: messageLimit_not_a_number effective_limit_def)

lemma effective_query_limit: "effective_limit (query_limit q) = effective_limit (requested_limit q)"
  by (cases "requested_limit q") (auto simp: query_limit_def or_default_def effective_limit_def clamp_limit_def)

lemma effective_limit_range: "1 \<le> effective_limit r \<and> effective_limit r \<le> 1000"
  by (cases r) (auto simp: effective_limit_def clamp_limit_def)

text \<open>Newest first, cut, reversed: what is left is oldest first.\<close>

lemma oldest_first:
  "sorted (map (\<lambda>row. m_timestamp (hr_message row)) (rev (take k (order_by_timestamp_desc rows))))"
proof -
  let ?ts = "\<lambda>row. m_timestamp (hr_message row)"
  let ?cut = "take k (order_by_timestamp_desc rows)"
  have "sorted (map (\<lambda>row. - ?ts row) (order_by_timestamp_desc rows))"
    unfolding order_by_timestamp_desc_def by (rule sorted_sort_key)
  then have "sorted (take k (map (\<lambda>row. - ?ts row) (order_by_timestamp_desc rows)))"
    by (rule sorted_wrt_take)
  then have "sorted_wrt (\<lambda>x y. - ?ts x \<le> - ?ts y) ?cut"
    by (simp only: take_map sorted_wrt_map)
  then have "sorted_wrt (\<lambda>x y. ?ts y \<le> ?ts x) ?cut"
    by simp
  then have "sorted_wrt (\<lambda>x y. ?ts x \<le> ?ts y) (rev ?cut)"
    by (simp only: sorted_wrt_rev)
  then show ?thesis
    by (simp only: sorted_wrt_map)
qed

lemma getRecentMessages_rows:
  "fst (getRecentMessages failSelect failRoom failQuery d room limit) = [] \<or>
   (\<exists>k. messageLimit limit = Num k \<and> 0 \<le> k \<and>
     fst (getRecentMessages failSelect failRoom failQuery d room limit) =
       rev (take (nat k) (order_by_timestamp_desc
         (messages_join (snd (Message_ensureRoom failSelect failRoom d room)) room))))"
  by (auto simp: getRecentMessages_def history_query_def split: prod.splits sum.splits jsnum.splits if_splits)

lemma getRecentMessages_no_failure:
  assumes "\<not> failSelect" "\<not> failRoom" "\<not> failQuery" and "messageLimit limit = Num k" "0 \<le> k"
  shows "fst (getRecentMessages failSelect failRoom failQuery d room limit) =
       rev (take (nat k) (order_by_timestamp_desc
         (messages_join (snd (Message_ensureRoom failSelect failRoom d room)) room)))"
  using assms
  by (auto simp: getRecentMessages_def history_query_def Message_ensureRoom_def Let_def
      split: prod.splits sum.splits option.splits)

lemma cm_time_formatDbMessage:
  "map cm_time (map formatDbMessage rows) = map (\<lambda>row. m_timestamp (hr_message row)) rows"
  by (simp add: formatDbMessage_def)

lemma history_length:
  assumes "is_double limit"
  shows "int (length (fst (getRecentMessages failSelect failRoom failQuery d room limit))) \<le> effective_limit limit"
proof -
  obtain k where k: "messageLimit limit = Num k" "1 \<le> k" "k \<le> effective_limit limit"
    using messageLimit_bounded [OF assms] by blast
  from getRecentMessages_rows [of failSelect failRoom failQuery d room limit] show ?thesis
  proof
    assume "fst (getRecentMessages failSelect failRoom failQuery d room limit) = []"
    with k show ?thesis by simp
  next
    assume "\<exists>k. messageLimit limit = Num k \<and> 0 \<le> k \<and>
      fst (getRecentMessages failSelect failRoom failQuery d room limit) =
        rev (take (nat k) (order_by_timestamp_desc
          (messages_join (snd (Message_ensureRoom failSelect failRoom d room)) room)))"
    with k have "length (fst (getRecentMessages failSelect failRoom failQuery d room limit)) \<le> nat k"
      by auto
    with k show ?thesis by linarith
  qed
qed

lemma history_sorted:
  "sorted (map (\<lambda>row. m_timestamp (hr_message row))
     (fst (getRecentMessages failSelect failRoom failQuery d room limit)))"
  using getRecentMessages_rows [of failSelect failRoom failQuery d room limit] oldest_first
  by auto

lemma query_limit_exact:
  assumes "\<And>n. requested_limit q = Num n \<Longrightarrow> \<bar>n\<bar> < 2 ^ 53"
  shows "messageLimit (query_limit q) = Num (effective_limit (requested_limit q))"
proof -
  have "\<bar>n\<bar> < 2 ^ 53" if "query_limit q = Num n" for n
    using that assms by (cases "requested_limit q") (auto simp: query_limit_def or_default_def split: if_splits)
  then have "messageLimit (query_limit q) = Num (effective_limit (query_limit q))"
    by (rule messageLimit_exact)
  then show ?thesis
    by (simp add: effective_query_limit)
qed

text \<open>
  Two readings worth seeing: a limit of 22 nines is read as the double \<open>10^22\<close>, whose
  text is \<open>1e+22\<close>, so the statement is sent with \<open>LIMIT 1\<close>; a limit of \<open>0.5\<close> is read as
  0 and becomes 50.
\<close>

lemma limit_readings:
  "requested_limit (Some ''9999999999999999999999'') = Num (10 ^ 22)"
  "numberToString (Num (10 ^ 22)) = ''1e+22''"
  "messageLimit (query_limit (Some ''9999999999999999999999'')) = Num 1"
  "requested_limit (Some ''0.5'') = Num 0"
  "messageLimit (query_limit (Some ''0.5'')) = Num 50"
  "requested_limit (Some ''12abc'') = Num 12"
  "requested_limit (Some '' -7'') = Num (- 7)"
  "requested_limit (Some ''0x10'') = Num 16"
  "requested_limit (Some ''abc'') = NaN"
  "requested_limit None = NaN"
  by code_simp+

text \<open>
  C3, as the code has it. The requested limit is the number \<open>parseInt\<close> reads off the
  front of the \<open>limit\<close> text of the query: white space, a sign, and the leading digits,
  hexadecimal after \<open>0x\<close> (\<open>12abc\<close> reads as 12, \<open>0.5\<close> as 0, \<open>0x10\<close> as 16, a text without a
  leading digit or a missing limit as \<open>NaN\<close>). The limit that counts,
  \<open>effective_limit\<close>, is that number clamped to the range from 1 to 1000, except that a
  limit read as \<open>NaN\<close>, as zero or as an infinity counts as 50. For every room and every
  limit that is a double (\<open>is_double\<close>, as every result of \<open>parseInt\<close> is),
  \<open>getRecentMessages\<close> returns at most that many rows, in ascending order of timestamp; when no statement fails and the limit is below \<open>2^53\<close> in size, they are
  exactly the newest \<open>effective_limit\<close> rows of the room. The same holds for the messages
  \<open>GET /api/messages/:room\<close> answers an authenticated request with, for the limit read
  from the query.
\<close>

theorem history_limit_and_order:
  "(is_double limit \<longrightarrow>
      int (length (fst (getRecentMessages failSelect failRoom failQuery d room limit))) \<le> effective_limit limit)
   \<and> 1 \<le> effective_limit limit \<and> effective_limit limit \<le> 1000
   \<and> sorted (map (\<lambda>row. m_timestamp (hr_message row))
         (fst (getRecentMessages failSelect failRoom failQuery d room limit)))
   \<and> (\<not> failSelect \<and> \<not> failRoom \<and> \<not> failQuery \<and> (\<forall>n. limit = Num n \<longrightarrow> \<bar>n\<bar> < 2 ^ 53) \<longrightarrow>
        fst (getRecentMessages failSelect failRoom failQuery d room limit) =
          rev (take (nat (effective_limit limit)) (order_by_timestamp_desc
            (messages_join (snd (Message_ensureRoom failSelect failRoom d room)) room))))
   \<and> is_double (query_limit q)
   \<and> (\<forall>msgs d'. get_messages flt d sess room q = (MessageList msgs, d') \<longrightarrow>
        int (length msgs) \<le> effective_limit (requested_limit q) \<and> sorted (map cm_time msgs))
   \<and> (session_userId sess \<noteq> None \<and> session_userId sess \<noteq> Some 0
        \<and> \<not> flt HistoryRoomSelect \<and> \<not> flt HistoryRoomInsert \<and> \<not> flt HistoryQuery
        \<and> (\<forall>n. requested_limit q = Num n \<longrightarrow> \<bar>n\<bar> < 2 ^ 53) \<longrightarrow>
        fst (get_messages flt d sess room q) =
          MessageList (map formatDbMessage
            (rev (take (nat (effective_limit (requested_limit q))) (order_by_timestamp_desc
              (messages_join
                (snd (Message_ensureRoom (flt HistoryRoomSelect) (flt HistoryRoomInsert) d room))
                room))))))"
proof (intro conjI impI allI)
  assume "is_double limit"
  then show "int (length (fst (getRecentMessages failSelect failRoom failQuery d room limit))) \<le> effective_limit limit"
    by (rule history_length)
next
  show "1 \<le> effective_limit limit" "effective_limit limit \<le> 1000"
    using effective_limit_range by blast+
  show "sorted (map (\<lambda>row. m_timestamp (hr_message row))
         (fst (getRecentMessages failSelect failRoom failQuery d room limit)))"
    by (rule history_sorted)
  show "is_double (query_limit q)"
    by (rule is_double_query_limit)
next
  assume a: "\<not> failSelect \<and> \<not> failRoom \<and> \<not> failQuery \<and> (\<forall>n. limit = Num n \<longrightarrow> \<bar>n\<bar> < 2 ^ 53)"
  then have exact: "messageLimit limit = Num (effective_limit limit)"
    by (intro messageLimit_exact) blast
  show "fst (getRecentMessages failSelect failRoom failQuery d room limit) =
          rev (take (nat (effective_limit limit)) (order_by_timestamp_desc
            (messages_join (snd (Message_ensureRoom failSelect failRoom d room)) room)))"
    using a effective_limit_range [of limit]
    by (intro getRecentMessages_no_failure [OF _ _ _ exact]) auto
next
  fix msgs d'
  assume g: "get_messages flt d sess room q = (MessageList msgs, d')"
  let ?rows = "fst (getRecentMessages (flt HistoryRoomSelect) (flt HistoryRoomInsert)
                 (flt HistoryQuery) d room (query_limit q))"
  from g have msgs: "msgs = map formatDbMessage ?rows"
    by (auto simp: get_messages_def Let_def split: if_splits)
  show "int (length msgs) \<le> effective_limit (requested_limit q)"
    unfolding msgs using history_length [OF is_double_query_limit, of _ _ _ d room q]
    by (simp add: effective_query_limit)
  show "sorted (map cm_time msgs)"
    unfolding msgs cm_time_formatDbMessage by (rule history_sorted)
next
  assume a: "session_userId sess \<noteq> None \<and> session_userId sess \<noteq> Some 0
        \<and> \<not> flt HistoryRoomSelect \<and> \<not> flt HistoryRoomInsert \<and> \<not> flt HistoryQuery
        \<and> (\<forall>n. requested_limit q = Num n \<longrightarrow> \<bar>n\<bar> < 2 ^ 53)"
  then have exact: "messageLimit (query_limit q) = Num (effective_limit (requested_limit q))"
    by (intro query_limit_exact) blast
  have "fst (getRecentMessages (flt HistoryRoomSelect) (flt HistoryRoomInsert) (flt HistoryQuery)
          d room (query_limit q)) =
        rev (take (nat (effective_limit (requested_limit q))) (order_by_timestamp_desc
          (messages_join
            (snd (Message_ensureRoom (flt HistoryRoomSelect) (flt HistoryRoomInsert) d room)) room)))"
    using a effective_limit_range [of "requested_limit q"]
    by (intro getRecentMessages_no_failure [OF _ _ _ exact]) auto
  with a show "fst (get_messages flt d sess room q) =
          MessageList (map formatDbMessage
            (rev (take (nat (effective_limit (requested_limit q))) (order_by_timestamp_desc
              (messages_join
                (snd (Message_ensureRoom (flt HistoryRoomSelect) (flt HistoryRoomInsert) d room))
                room)))))"
    by (simp add: get_messages_def Let_def)
qed

theorem history_limit_and_order_witness:
  "get_messages nothing_fails chat_db alice_logged_in ''general'' (Some ''1'') =
     (MessageList [\<lparr>cm_username = ''alice'', cm_text = ''again'', cm_time = 160,
                    cm_messageType = Some ''text'', cm_avatar = None\<rparr>], chat_db)
   \<and> effective_limit (requested_limit (Some ''1'')) = 1
   \<and> int (length [\<lparr>cm_username = ''alice'', cm_text = ''again'', cm_time = 160,
                    cm_messageType = Some ''text'', cm_avatar = None\<rparr>])
        \<le> effective_limit (requested_limit (Some ''1''))
   \<and> is_double (Num 20)
   \<and> int (length (fst (getRecentMessages False False False chat_db ''general'' (Num 20))))
        \<le> effective_limit (Num 20)
   \<and> fst (getRecentMessages False False False chat_db ''general'' (Num 20)) =
        rev (take (nat (effective_limit (Num 20))) (order_by_timestamp_desc
          (messages_join (snd (Message_ensureRoom False False chat_db ''general'')) ''general'')))
   \<and> map (\<lambda>row. m_message (hr_message row))
        (fst (getRecentMessages False False False chat_db ''general'' (Num 20))) = [''hello'', ''again'']
   \<and> effective_limit (requested_limit (Some ''0.5'')) = 50
   \<and> fst (get_messages nothing_fails chat_db alice_logged_in ''general'' (Some ''0.5'')) =
        MessageList (map formatDbMessage
          (rev (take (nat (effective_limit (requested_limit (Some ''0.5'')))) (order_by_timestamp_desc
            (messages_join
              (snd (Message_ensureRoom (nothing_fails HistoryRoomSelect) (nothing_fails HistoryRoomInsert)
                 chat_db ''general''))
              ''general'')))))"
proof -
  let ?again = "\<lparr>cm_username = ''alice'', cm_text = ''again'', cm_time = 160,
                  cm_messageType = Some ''text'', cm_avatar = None\<rparr>"
  have g: "get_messages nothing_fails chat_db alice_logged_in ''general'' (Some ''1'') =
      (MessageList [?again], chat_db)"
    by code_simp
  have e: "effective_limit (requested_limit (Some ''1'')) = 1"
    by code_simp
  have m: "map (\<lambda>row. m_message (hr_message row))
        (fst (getRecentMessages False False False chat_db ''general'' (Num 20))) = [''hello'', ''again'']"
    by code_simp
  have twenty: "is_double (Num 20)"
    by (simp add: is_double_def round53_small)
  have size: "\<not> False \<and> \<not> False \<and> \<not> False \<and> (\<forall>n. Num 20 = Num n \<longrightarrow> \<bar>n\<bar> < 2 ^ 53)"
    by simp
  have half: "effective_limit (requested_limit (Some ''0.5'')) = 50"
    by code_simp
  have handler: "session_userId alice_logged_in \<noteq> None \<and> session_userId alice_logged_in \<noteq> Some 0
        \<and> \<not> nothing_fails HistoryRoomSelect \<and> \<not> nothing_fails HistoryRoomInsert
        \<and> \<not> nothing_fails HistoryQuery
        \<and> (\<forall>n. requested_limit (Some ''0.5'') = Num n \<longrightarrow> \<bar>n\<bar> < 2 ^ 53)"
    by (simp add: limit_readings(4) alice_logged_in_def nothing_fails_def)
  note inst = history_limit_and_order [where failSelect = False and failRoom = False
      and failQuery = False and d = chat_db and room = "''general''" and limit = "Num 20"
      and flt = nothing_fails and sess = alice_logged_in]
  note bound = inst [where q = "Some ''1''", THEN conjunct1, rule_format, OF twenty]
  note exact = inst [where q = "Some ''1''", THEN conjunct2, THEN conjunct2, THEN conjunct2,
      THEN conjunct2, THEN conjunct1, rule_format, OF size]
  note answered = inst [where q = "Some ''1''", THEN conjunct2, THEN conjunct2, THEN conjunct2,
      THEN conjunct2, THEN conjunct2, THEN conjunct2, THEN conjunct1, rule_format, OF g,
      THEN conjunct1]
  note newest = inst [where q = "Some ''0.5''", THEN conjunct2, THEN conjunct2, THEN conjunct2,
      THEN conjunct2, THEN conjunct2, THEN conjunct2, THEN conjunct2, rule_format, OF handler]
  show ?thesis
    by (intro conjI g e answered twenty bound exact m half newest)
qed

text \<open>
  The claim as the specification states it fails for a requested limit of zero: the
  clamp would allow one message, the handler answers with both.
\<close>

theorem history_limit_zero_counterexample:
  "\<not> int (length (fst (getRecentMessages False False False chat_db ''general''
         (query_limit (Some ''0''))))) \<le> claimed_limit (requested_limit (Some ''0''))"
  by code_simp


section \<open>Reading the history creates the room\<close>

lemma ensureRoom_creates:
  assumes "room \<notin> set (map r_name (rooms d))" and "\<not> failSelect" and "\<not> failRoom"
  shows "Message_ensureRoom failSelect failRoom d room =
     (Inr (insertId (map r_id (rooms d))),
      d\<lparr>rooms := rooms d @ [\<lparr>r_id = insertId (map r_id (rooms d)), r_name = room, r_created_by = 1\<rparr>]\<rparr>)"
proof -
  have "find (\<lambda>r. r_name r = room) (rooms d) = None"
    using assms(1) by (auto simp: find_None_iff)
  then show ?thesis
    using assms(2,3) by (simp add: Message_ensureRoom_def Let_def)
qed

lemma ensureRoom_present:
  assumes "\<not> failSelect" and "\<not> failRoom"
  shows "room \<in> set (map r_name (rooms (snd (Message_ensureRoom failSelect failRoom d room))))"
proof (cases "find (\<lambda>r. r_name r = room) (rooms d)")
  case None
  then show ?thesis
    using assms by (simp add: Message_ensureRoom_def Let_def)
next
  case (Some r)
  then have "r \<in> set (rooms d) \<and> r_name r = room"
    by (auto simp: find_Some_iff)
  with Some show ?thesis
    using assms by (auto simp: Message_ensureRoom_def)
qed

lemma ensureRoom_keeps_rooms:
  "set (rooms d) \<subseteq> set (rooms (snd (Message_ensureRoom failSelect failRoom d room)))"
  by (auto simp: Message_ensureRoom_def Let_def split: option.splits)

lemma Message_create_keeps_rooms:
  "set (rooms d) \<subseteq> set (rooms (snd (Message_create failSelect failRoom failInsert now d userId room message messageType)))"
  using ensureRoom_keeps_rooms [of d failSelect failRoom room]
  by (auto simp: Message_create_def Let_def split: prod.splits sum.splits)

lemma getRecentMessages_db:
  "snd (getRecentMessages failSelect failRoom failQuery d room limit) =
     snd (Message_ensureRoom failSelect failRoom d room)"
  by (auto simp: getRecentMessages_def split: prod.splits sum.splits)

lemma complete_join_room_present:
  assumes "\<not> flt HistoryRoomSelect" and "\<not> flt HistoryRoomInsert"
  shows "room \<in> set (map r_name (rooms (db (fst (complete_join flt now st sock userId username room)))))"
proof -
  let ?sessionId = "case handshake_sessionID sock of
                         None \<Rightarrow> socket_id sock
                       | Some s \<Rightarrow> if s = [] then socket_id sock else s"
  let ?st2 = "snd (userJoin flt now st (socket_id sock) ?sessionId userId username room
                   (handshake_address sock) (handshake_user_agent sock))"
  let ?d3 = "snd (getRecentMessages (flt HistoryRoomSelect) (flt HistoryRoomInsert)
                     (flt HistoryQuery) (db ?st2) room (Num 20))"
  let ?d4 = "snd (Message_create (flt MessageRoomSelect) (flt MessageRoomInsert)
                     (flt MessageInsert) now ?d3 userId room
                     (username @ '' has joined the chat!'') ''system'')"
  have "room \<in> set (map r_name (rooms ?d3))"
    unfolding getRecentMessages_db using assms by (rule ensureRoom_present)
  moreover have "set (rooms ?d3) \<subseteq> set (rooms ?d4)"
    by (rule Message_create_keeps_rooms)
  ultimately have "room \<in> set (map r_name (rooms ?d4))"
    by auto
  moreover have "db (fst (complete_join flt now st sock userId username room)) = ?d4"
    by (simp add: complete_join_def Let_def)
  ultimately show ?thesis by simp
qed

lemma joinRoom_confirmed:
  assumes "Emit (ToSocket (socket_id sock)) (RoomJoined room userId username)
             \<in> set (snd (joinRoom flt interleaved now st sock username_opt room_opt))"
  shows "\<exists>d1. get_or_create_user flt interleaved now (db st) username = (Inr (Some userId), d1)
           \<and> username_opt = Some username \<and> room_opt = Some room
           \<and> joinRoom flt interleaved now st sock username_opt room_opt =
               complete_join flt now (st\<lparr>db := d1\<rparr>) sock userId username room"
  using assms
  by (auto simp: joinRoom_def complete_join_def Let_def
      split: option.splits if_splits prod.splits sum.splits stop.splits)

text \<open>
  C10. For a room name that is not in the rooms table, \<open>getRecentMessages\<close> adds the room
  row (when the lookup and the insert of \<open>ensureRoom\<close> succeed) and changes nothing
  else, whether or not the history query itself then succeeds; so does an authenticated
  \<open>GET /api/messages/:room\<close>. After a join that was confirmed, the room's row exists.
\<close>

theorem history_read_creates_room:
  assumes "room \<notin> set (map r_name (rooms d))"
    and "\<not> flt HistoryRoomSelect" and "\<not> flt HistoryRoomInsert"
  shows "snd (getRecentMessages (flt HistoryRoomSelect) (flt HistoryRoomInsert) (flt HistoryQuery) d room limit) =
           d\<lparr>rooms := rooms d @ [\<lparr>r_id = insertId (map r_id (rooms d)), r_name = room, r_created_by = 1\<rparr>]\<rparr>
       \<and> (session_userId sess \<noteq> None \<and> session_userId sess \<noteq> Some 0 \<longrightarrow>
            snd (get_messages flt d sess room q) =
              d\<lparr>rooms := rooms d @ [\<lparr>r_id = insertId (map r_id (rooms d)), r_name = room, r_created_by = 1\<rparr>]\<rparr>)
       \<and> (\<forall>st userId username.
             db st = d \<and> Emit (ToSocket (socket_id sock)) (RoomJoined room userId username)
               \<in> set (snd (joinRoom flt interleaved now st sock (Some username) (Some room))) \<longrightarrow>
             room \<in> set (map r_name (rooms (db (fst (joinRoom flt interleaved now st sock (Some username) (Some room)))))))"
proof (intro conjI impI allI)
  show created: "snd (getRecentMessages (flt HistoryRoomSelect) (flt HistoryRoomInsert) (flt HistoryQuery) d room limit) =
           d\<lparr>rooms := rooms d @ [\<lparr>r_id = insertId (map r_id (rooms d)), r_name = room, r_created_by = 1\<rparr>]\<rparr>"
    for limit
    unfolding getRecentMessages_db by (simp add: ensureRoom_creates [OF assms])
  assume "session_userId sess \<noteq> None \<and> session_userId sess \<noteq> Some 0"
  then show "snd (get_messages flt d sess room q) =
              d\<lparr>rooms := rooms d @ [\<lparr>r_id = insertId (map r_id (rooms d)), r_name = room, r_created_by = 1\<rparr>]\<rparr>"
    using created [of "query_limit q"] by (simp add: get_messages_def Let_def)
next
  fix st userId username
  assume a: "db st = d \<and> Emit (ToSocket (socket_id sock)) (RoomJoined room userId username)
               \<in> set (snd (joinRoom flt interleaved now st sock (Some username) (Some room)))"
  then obtain d1 where "joinRoom flt interleaved now st sock (Some username) (Some room) =
               complete_join flt now (st\<lparr>db := d1\<rparr>) sock userId username room"
    using joinRoom_confirmed by blast
  then show "room \<in> set (map r_name (rooms (db (fst (joinRoom flt interleaved now st sock (Some username) (Some room))))))"
    using complete_join_room_present [OF assms(2,3)] by simp
qed

theorem history_read_creates_room_witness:
  "''general'' \<notin> set (map r_name (rooms alice_db))
   \<and> snd (getRecentMessages (nothing_fails HistoryRoomSelect) (nothing_fails HistoryRoomInsert)
        (nothing_fails HistoryQuery) alice_db ''general'' (Num 20)) = alice_db\<lparr>rooms := [general_room]\<rparr>
   \<and> snd (get_messages nothing_fails alice_db alice_logged_in ''general'' None) =
        alice_db\<lparr>rooms := [general_room]\<rparr>
   \<and> Emit (ToSocket (socket_id socket1)) (RoomJoined ''general'' 1 ''alice'')
        \<in> set (snd (joinRoom nothing_fails id 100 (startup alice_db) socket1 (Some ''alice'') (Some ''general'')))
   \<and> ''general'' \<in> set (map r_name (rooms (db (fst
        (joinRoom nothing_fails id 100 (startup alice_db) socket1 (Some ''alice'') (Some ''general''))))))"
proof -
  have absent: "''general'' \<notin> set (map r_name (rooms alice_db))"
    by (simp add: alice_db_def)
  have ok: "\<not> nothing_fails HistoryRoomSelect" "\<not> nothing_fails HistoryRoomInsert"
    by (simp_all add: nothing_fails_def)
  have auth: "session_userId alice_logged_in \<noteq> None \<and> session_userId alice_logged_in \<noteq> Some 0"
    by (simp add: alice_logged_in_def)
  have row: "\<lparr>r_id = insertId (map r_id (rooms alice_db)), r_name = ''general'', r_created_by = 1\<rparr> = general_room"
    by (simp add: alice_db_def general_room_def insertId_def)
  have confirmed: "Emit (ToSocket (socket_id socket1)) (RoomJoined ''general'' 1 ''alice'')
        \<in> set (snd (joinRoom nothing_fails id 100 (startup alice_db) socket1 (Some ''alice'') (Some ''general'')))"
    by code_simp
  have db: "db (startup alice_db) = alice_db"
    by (simp add: startup_def)
  note inst = history_read_creates_room [OF absent ok, of "Num 20" alice_logged_in None socket1 id 100]
  from inst have "snd (getRecentMessages (nothing_fails HistoryRoomSelect) (nothing_fails HistoryRoomInsert)
        (nothing_fails HistoryQuery) alice_db ''general'' (Num 20)) = alice_db\<lparr>rooms := [general_room]\<rparr>"
    using row by (simp add: alice_db_def)
  moreover from inst auth have "snd (get_messages nothing_fails alice_db alice_logged_in ''general'' None) =
        alice_db\<lparr>rooms := [general_room]\<rparr>"
    using row by (simp add: alice_db_def)
  moreover from inst db confirmed have "''general'' \<in> set (map r_name (rooms (db (fst
        (joinRoom nothing_fails id 100 (startup alice_db) socket1 (Some ''alice'') (Some ''general''))))))"
    by blast
  ultimately show ?thesis
    using absent confirmed by blast
qed

section \<open>Joining a room\<close>

text \<open>What the steps of a join do to the users table: ids and usernames stay.\<close>

lemma users_setOnlineStatus:
  "map (\<lambda>u. (u_id u, u_username u)) (users (snd (User_setOnlineStatus fails now d userId isOnline))) =
   map (\<lambda>u. (u_id u, u_username u)) (users d)"
  by (simp add: User_setOnlineStatus_def comp_def)

lemma users_Session_create:
  "users (snd (Session_create failFind failWrite now d sessionId userId socketId room ip ua)) = users d"
  by (auto simp: Session_create_def Session_update_def split: sum.splits option.splits prod.splits)

lemma users_userJoin:
  "map (\<lambda>u. (u_id u, u_username u)) (users (db (snd (userJoin flt now st socketId sessionId userId username room ip ua)))) =
   map (\<lambda>u. (u_id u, u_username u)) (users (db st))"
proof (cases "User_setOnlineStatus (flt SetOnline) now (db st) userId True")
  case (Pair r d1)
  have d1: "map (\<lambda>u. (u_id u, u_username u)) (users d1) = map (\<lambda>u. (u_id u, u_username u)) (users (db st))"
    using users_setOnlineStatus [of "flt SetOnline" now "db st" userId True] Pair by simp
  show ?thesis
    using Pair d1 by (cases r) (simp_all add: userJoin_def Let_def users_Session_create)
qed

lemma users_ensureRoom: "users (snd (Message_ensureRoom failSelect failRoom d room)) = users d"
  by (auto simp: Message_ensureRoom_def Let_def split: option.splits)

lemma users_Message_create:
  "users (snd (Message_create failSelect failRoom failInsert now d userId room message messageType)) = users d"
  using users_ensureRoom [of failSelect failRoom d room]
  by (auto simp: Message_create_def Let_def split: prod.splits sum.splits)

lemma users_complete_join:
  "map (\<lambda>u. (u_id u, u_username u)) (users (db (fst (complete_join flt now st sock userId username room)))) =
   map (\<lambda>u. (u_id u, u_username u)) (users (db st))"
  by (simp add: complete_join_def Let_def users_Message_create getRecentMessages_db users_ensureRoom
      users_userJoin)

text \<open>The presence record and the effects of a join that got its user.\<close>

lemma complete_join_presence:
  "getCurrentUser (fst (complete_join flt now st sock userId username room)) (socket_id sock) =
     Some \<lparr>p_id = userId, p_socketId = socket_id sock,
           p_sessionId = (case handshake_sessionID sock of
                            None \<Rightarrow> socket_id sock
                          | Some s \<Rightarrow> if s = [] then socket_id sock else s),
           p_username = username, p_room = room, p_joinedAt = now\<rparr>"
  by (simp add: complete_join_def Let_def getCurrentUser_def connectedUsers_userJoin Map_get_Map_set)
    (simp add: userJoin_def Let_def)

lemma complete_join_effects:
  "SocketJoin (socket_id sock) room \<in> set (snd (complete_join flt now st sock userId username room))
   \<and> Emit (ToSocket (socket_id sock)) (RoomJoined room userId username)
        \<in> set (snd (complete_join flt now st sock userId username room))
   \<and> Emit (ToRoomExceptSender room (socket_id sock))
        (ChatMessage (formatMessage now botName (username @ '' has joined the chat! '' @ waving_hand)))
        \<in> set (snd (complete_join flt now st sock userId username room))"
  by (simp add: complete_join_def Let_def)

lemma complete_join_not_rejected:
  "\<not> rejected sock st (complete_join flt now st' sock userId username room)"
  by (simp add: rejected_def complete_join_def Let_def)

lemma joinRoom_resolved:
  assumes "username \<noteq> []" and "room \<noteq> []"
    and "get_or_create_user flt interleaved now (db st) username = (Inr (Some userId), d1)"
  shows "joinRoom flt interleaved now st sock (Some username) (Some room) =
           complete_join flt now (st\<lparr>db := d1\<rparr>) sock userId username room"
  using assms by (simp add: joinRoom_def)

lemma joinRoom_unresolved:
  assumes "username \<noteq> []" and "room \<noteq> []"
    and "get_or_create_user flt interleaved now (db st) username = (r, d1)"
    and "\<And>u. r \<noteq> Inr (Some u)"
  shows "rejected sock st (joinRoom flt interleaved now st sock (Some username) (Some room))"
  using assms
  by (auto simp: joinRoom_def rejected_def split: sum.splits stop.splits option.splits)

text \<open>The outcomes of getting or creating the user.\<close>

lemma find_username_None:
  "username \<notin> set (map u_username (users d)) \<Longrightarrow> find (\<lambda>u. u_username u = username) (users d) = None"
  by (auto simp: find_None_iff)

lemma user_lookup_fails:
  assumes "flt FindByUsername"
  shows "get_or_create_user flt interleaved now d username = (Inl (Thrown connection_lost), d)"
  using assms by (simp add: get_or_create_user_def User_findByUsername_def)

lemma user_insert_fails:
  assumes "\<not> flt FindByUsername" and "username \<notin> set (map u_username (users d))" and "flt CreateUser"
  shows "get_or_create_user flt interleaved now d username = (Inl Answered, interleaved d)"
  using assms find_username_None [OF assms(2)]
  by (simp add: get_or_create_user_def User_findByUsername_def User_create_def connection_lost_def)

lemma user_insert_conflict:
  assumes "\<not> flt FindByUsername" and "username \<notin> set (map u_username (users d))"
    and "\<not> flt CreateUser"
    and "username \<in> set (map u_username (users (interleaved d)))
         \<or> guest_email username \<in> set (map u_email (users (interleaved d)))"
  shows "get_or_create_user flt interleaved now d username =
           (case User_findByUsername (flt RefetchUser) (interleaved d) username of
              Inl e \<Rightarrow> (Inl (Thrown e), interleaved d)
            | Inr user \<Rightarrow> (Inr (map_option u_id user), interleaved d))"
  using assms(1,3,4) find_username_None [OF assms(2)]
  by (auto simp: get_or_create_user_def User_findByUsername_def User_create_def dup_entry_def)

lemma user_found:
  assumes "\<not> flt FindByUsername" and "find (\<lambda>u. u_username u = username) (users d) = Some user"
  shows "get_or_create_user flt interleaved now d username = (Inr (Some (u_id user)), d)"
  using assms by (simp add: get_or_create_user_def User_findByUsername_def)




text \<open>
  C2, as the code has it. A persistence failure while the user is looked up, inserted
  (other than by a uniqueness conflict) or looked up again rejects the join: one
  \<open>roomJoinError\<close> on the joiner's socket and no presence record. Once the user is
  known, nothing that fails later rejects the join: \<open>userJoin\<close> registers the presence
  record first and only logs a failure of the online flag or of the session row, so the
  confirmation and the notice to the room are sent all the same.
\<close>

theorem join_persistence_failures:
  assumes "username \<noteq> []" and "room \<noteq> []"
  shows "(flt FindByUsername \<longrightarrow>
            rejected sock st (joinRoom flt interleaved now st sock (Some username) (Some room)))
       \<and> (\<not> flt FindByUsername \<and> username \<notin> set (map u_username (users (db st))) \<and> flt CreateUser \<longrightarrow>
            rejected sock st (joinRoom flt interleaved now st sock (Some username) (Some room)))
       \<and> (\<not> flt FindByUsername \<and> username \<notin> set (map u_username (users (db st))) \<and> \<not> flt CreateUser
            \<and> (username \<in> set (map u_username (users (interleaved (db st))))
                 \<or> guest_email username \<in> set (map u_email (users (interleaved (db st)))))
            \<and> flt RefetchUser \<longrightarrow>
            rejected sock st (joinRoom flt interleaved now st sock (Some username) (Some room)))
       \<and> (\<forall>userId d1.
            (flt SetOnline \<or> flt SessionFind \<or> flt SessionWrite)
            \<and> get_or_create_user flt interleaved now (db st) username = (Inr (Some userId), d1) \<longrightarrow>
            \<not> rejected sock st (joinRoom flt interleaved now st sock (Some username) (Some room))
            \<and> getCurrentUser (fst (joinRoom flt interleaved now st sock (Some username) (Some room)))
                 (socket_id sock) =
                Some \<lparr>p_id = userId, p_socketId = socket_id sock,
                      p_sessionId = (case handshake_sessionID sock of
                                       None \<Rightarrow> socket_id sock
                                     | Some s \<Rightarrow> if s = [] then socket_id sock else s),
                      p_username = username, p_room = room, p_joinedAt = now\<rparr>
            \<and> Emit (ToSocket (socket_id sock)) (RoomJoined room userId username)
                 \<in> set (snd (joinRoom flt interleaved now st sock (Some username) (Some room)))
            \<and> Emit (ToRoomExceptSender room (socket_id sock))
                 (ChatMessage (formatMessage now botName (username @ '' has joined the chat! '' @ waving_hand)))
                 \<in> set (snd (joinRoom flt interleaved now st sock (Some username) (Some room))))"
proof (intro conjI impI allI)
  assume "flt FindByUsername"
  then show "rejected sock st (joinRoom flt interleaved now st sock (Some username) (Some room))"
    using user_lookup_fails [of flt interleaved now "db st" username] assms
    by (intro joinRoom_unresolved) auto
next
  assume "\<not> flt FindByUsername \<and> username \<notin> set (map u_username (users (db st))) \<and> flt CreateUser"
  then show "rejected sock st (joinRoom flt interleaved now st sock (Some username) (Some room))"
    using user_insert_fails [of flt username "db st" interleaved now] assms
    by (intro joinRoom_unresolved) auto
next
  assume a: "\<not> flt FindByUsername \<and> username \<notin> set (map u_username (users (db st))) \<and> \<not> flt CreateUser
            \<and> (username \<in> set (map u_username (users (interleaved (db st))))
                 \<or> guest_email username \<in> set (map u_email (users (interleaved (db st)))))
            \<and> flt RefetchUser"
  then have "get_or_create_user flt interleaved now (db st) username =
      (Inl (Thrown connection_lost), interleaved (db st))"
    using user_insert_conflict [of flt username "db st" interleaved now]
    by (simp add: User_findByUsername_def)
  then show "rejected sock st (joinRoom flt interleaved now st sock (Some username) (Some room))"
    using assms by (intro joinRoom_unresolved) auto
next
  fix userId d1
  assume "(flt SetOnline \<or> flt SessionFind \<or> flt SessionWrite)
            \<and> get_or_create_user flt interleaved now (db st) username = (Inr (Some userId), d1)"
  then have j: "joinRoom flt interleaved now st sock (Some username) (Some room) =
      complete_join flt now (st\<lparr>db := d1\<rparr>) sock userId username room"
    using joinRoom_resolved [OF assms] by blast
  show "\<not> rejected sock st (joinRoom flt interleaved now st sock (Some username) (Some room))"
    unfolding j by (rule complete_join_not_rejected)
  show "getCurrentUser (fst (joinRoom flt interleaved now st sock (Some username) (Some room)))
                 (socket_id sock) =
                Some \<lparr>p_id = userId, p_socketId = socket_id sock,
                      p_sessionId = (case handshake_sessionID sock of
                                       None \<Rightarrow> socket_id sock
                                     | Some s \<Rightarrow> if s = [] then socket_id sock else s),
                      p_username = username, p_room = room, p_joinedAt = now\<rparr>"
    unfolding j by (rule complete_join_presence)
  show "Emit (ToSocket (socket_id sock)) (RoomJoined room userId username)
                 \<in> set (snd (joinRoom flt interleaved now st sock (Some username) (Some room)))"
    unfolding j using complete_join_effects by blast
  show "Emit (ToRoomExceptSender room (socket_id sock))
                 (ChatMessage (formatMessage now botName (username @ '' has joined the chat! '' @ waving_hand)))
                 \<in> set (snd (joinRoom flt interleaved now st sock (Some username) (Some room)))"
    unfolding j using complete_join_effects by blast
qed

theorem join_persistence_failures_witness:
  "rejected socket1 (startup alice_db)
     (joinRoom (\<lambda>s. s = FindByUsername) id 100 (startup alice_db) socket1 (Some ''alice'') (Some ''general''))
   \<and> rejected socket1 (startup empty_db)
     (joinRoom (\<lambda>s. s = CreateUser) id 100 (startup empty_db) socket1 (Some ''alice'') (Some ''general''))
   \<and> rejected socket1 (startup empty_db)
     (joinRoom (\<lambda>s. s = RefetchUser) bob_created_meanwhile 100 (startup empty_db) socket1
        (Some ''bob'') (Some ''general''))
   \<and> \<not> rejected socket1 (startup alice_db)
     (joinRoom session_write_fails id 100 (startup alice_db) socket1 (Some ''alice'') (Some ''general''))
   \<and> getCurrentUser (fst (joinRoom session_write_fails id 100 (startup alice_db) socket1
        (Some ''alice'') (Some ''general''))) ''s1'' = Some alice_present
   \<and> Emit (ToSocket ''s1'') (RoomJoined ''general'' 1 ''alice'')
        \<in> set (snd (joinRoom session_write_fails id 100 (startup alice_db) socket1
              (Some ''alice'') (Some ''general'')))"
proof -
  have names: "''alice'' \<noteq> []" "''bob'' \<noteq> []" "''general'' \<noteq> []"
    by simp_all
  have r1: "rejected socket1 (startup alice_db)
     (joinRoom (\<lambda>s. s = FindByUsername) id 100 (startup alice_db) socket1 (Some ''alice'') (Some ''general''))"
    using join_persistence_failures [OF names(1,3), where flt = "\<lambda>s. s = FindByUsername"] by simp
  have r2: "rejected socket1 (startup empty_db)
     (joinRoom (\<lambda>s. s = CreateUser) id 100 (startup empty_db) socket1 (Some ''alice'') (Some ''general''))"
    using join_persistence_failures [OF names(1,3), where flt = "\<lambda>s. s = CreateUser" and st = "startup empty_db"]
    by (simp add: startup_def empty_db_def)
  have r3: "rejected socket1 (startup empty_db)
     (joinRoom (\<lambda>s. s = RefetchUser) bob_created_meanwhile 100 (startup empty_db) socket1
        (Some ''bob'') (Some ''general''))"
    using join_persistence_failures [OF names(2,3), where flt = "\<lambda>s. s = RefetchUser"
        and st = "startup empty_db" and interleaved = bob_created_meanwhile]
    by (simp add: startup_def empty_db_def bob_created_meanwhile_def bob_row_def)
  have known: "get_or_create_user session_write_fails id 100 (db (startup alice_db)) ''alice'' =
      (Inr (Some 1), alice_db)"
    by code_simp
  have fails: "session_write_fails SessionWrite"
    by (simp add: session_write_fails_def)
  have sid: "socket_id socket1 = ''s1''" "handshake_sessionID socket1 = None"
    by (simp_all add: socket1_def)
  from join_persistence_failures [OF names(1,3), where flt = session_write_fails and sock = socket1
      and st = "startup alice_db" and interleaved = id and now = 100]
    known fails
  have "\<not> rejected socket1 (startup alice_db)
     (joinRoom session_write_fails id 100 (startup alice_db) socket1 (Some ''alice'') (Some ''general''))
   \<and> getCurrentUser (fst (joinRoom session_write_fails id 100 (startup alice_db) socket1
        (Some ''alice'') (Some ''general''))) ''s1'' = Some alice_present
   \<and> Emit (ToSocket ''s1'') (RoomJoined ''general'' 1 ''alice'')
        \<in> set (snd (joinRoom session_write_fails id 100 (startup alice_db) socket1
              (Some ''alice'') (Some ''general'')))"
    by (simp add: sid alice_present_def)
  with r1 r2 r3 show ?thesis by blast
qed

text \<open>
  The claim as the specification states it fails when the session row cannot be
  written: the insert into \<open>active_sessions\<close> is refused and no row is stored, yet the
  join is not rejected.
\<close>

theorem join_session_failure_counterexample:
  "fst (Session_create (session_write_fails SessionFind) (session_write_fails SessionWrite) 100
         alice_db ''s1'' 1 (Some ''s1'') (Some ''general'') (Some ''10.0.0.7'') None) =
     Inl (Error ''Failed to create session: Connection lost'')
   \<and> active_sessions (db (fst (joinRoom session_write_fails id 100 (startup alice_db) socket1
        (Some ''alice'') (Some ''general'')))) = []
   \<and> \<not> rejected socket1 (startup alice_db)
        (joinRoom session_write_fails id 100 (startup alice_db) socket1 (Some ''alice'') (Some ''general''))
   \<and> getCurrentUser (fst (joinRoom session_write_fails id 100 (startup alice_db) socket1
        (Some ''alice'') (Some ''general''))) ''s1'' = Some alice_present
   \<and> take 2 (snd (joinRoom session_write_fails id 100 (startup alice_db) socket1
        (Some ''alice'') (Some ''general''))) =
       [SocketJoin ''s1'' ''general'', Emit (ToSocket ''s1'') (RoomJoined ''general'' 1 ''alice'')]"
  by code_simp

lemma user_refetched:
  assumes "\<not> flt FindByUsername" and "username \<notin> set (map u_username (users d))"
    and "\<not> flt CreateUser" and "\<not> flt RefetchUser"
    and "find (\<lambda>u. u_username u = username) (users (interleaved d)) = Some existing"
  shows "get_or_create_user flt interleaved now d username = (Inr (Some (u_id existing)), interleaved d)"
proof -
  have "existing \<in> set (users (interleaved d))" "u_username existing = username"
    using assms(5) by (auto simp: find_Some_iff)
  then have "username \<in> set (map u_username (users (interleaved d)))"
    by force
  then show ?thesis
    using user_insert_conflict [OF assms(1,2,3), of interleaved now] assms(4,5)
    by (simp add: User_findByUsername_def)
qed


text \<open>
  C6. A join with a username that the lookup does not find, while another connection
  creates that very guest before this handler's insert: the insert is refused as a
  duplicate, the handler reads the row that now holds the username and goes on with it.
  The join is not rejected, the presence record and the confirmation carry the id of
  the existing row, and the users table has gained no row.
\<close>

theorem join_refetches_on_conflict:
  assumes "username \<noteq> []" and "room \<noteq> []"
    and "\<not> flt FindByUsername" and "\<not> flt CreateUser" and "\<not> flt RefetchUser"
    and "username \<notin> set (map u_username (users (db st)))"
    and "find (\<lambda>u. u_username u = username) (users (interleaved (db st))) = Some existing"
  shows "fst (User_create (flt CreateUser) now (interleaved (db st)) username (guest_email username)
                ''temporary123'') = Inl (dup_entry username ''users.username'')
       \<and> joinRoom flt interleaved now st sock (Some username) (Some room) =
           complete_join flt now (st\<lparr>db := interleaved (db st)\<rparr>) sock (u_id existing) username room
       \<and> \<not> rejected sock st (joinRoom flt interleaved now st sock (Some username) (Some room))
       \<and> getCurrentUser (fst (joinRoom flt interleaved now st sock (Some username) (Some room)))
            (socket_id sock) =
           Some \<lparr>p_id = u_id existing, p_socketId = socket_id sock,
                 p_sessionId = (case handshake_sessionID sock of
                                  None \<Rightarrow> socket_id sock
                                | Some s \<Rightarrow> if s = [] then socket_id sock else s),
                 p_username = username, p_room = room, p_joinedAt = now\<rparr>
       \<and> Emit (ToSocket (socket_id sock)) (RoomJoined room (u_id existing) username)
            \<in> set (snd (joinRoom flt interleaved now st sock (Some username) (Some room)))
       \<and> map (\<lambda>u. (u_id u, u_username u))
            (users (db (fst (joinRoom flt interleaved now st sock (Some username) (Some room))))) =
           map (\<lambda>u. (u_id u, u_username u)) (users (interleaved (db st)))"
proof -
  have "existing \<in> set (users (interleaved (db st)))" "u_username existing = username"
    using assms(7) by (auto simp: find_Some_iff)
  then have "username \<in> set (map u_username (users (interleaved (db st))))"
    by force
  then have dup: "fst (User_create (flt CreateUser) now (interleaved (db st)) username
      (guest_email username) ''temporary123'') = Inl (dup_entry username ''users.username'')"
    using assms(4) by (simp add: User_create_def)
  have j: "joinRoom flt interleaved now st sock (Some username) (Some room) =
      complete_join flt now (st\<lparr>db := interleaved (db st)\<rparr>) sock (u_id existing) username room"
    using user_refetched [of flt username "db st" interleaved existing now] assms(3-7)
    by (intro joinRoom_resolved [OF assms(1,2)]) blast
  show ?thesis
    unfolding j
    using dup complete_join_not_rejected complete_join_presence complete_join_effects
      users_complete_join [of flt now "st\<lparr>db := interleaved (db st)\<rparr>" sock "u_id existing" username room]
    by simp
qed

theorem join_refetches_on_conflict_witness:
  "''bob'' \<notin> set (map u_username (users (db (startup empty_db))))
   \<and> find (\<lambda>u. u_username u = ''bob'') (users (bob_created_meanwhile (db (startup empty_db)))) = Some bob_row
   \<and> \<not> rejected socket1 (startup empty_db)
        (joinRoom nothing_fails bob_created_meanwhile 100 (startup empty_db) socket1 (Some ''bob'') (Some ''general''))
   \<and> Emit (ToSocket ''s1'') (RoomJoined ''general'' 1 ''bob'')
        \<in> set (snd (joinRoom nothing_fails bob_created_meanwhile 100 (startup empty_db) socket1
              (Some ''bob'') (Some ''general'')))
   \<and> map (\<lambda>u. (u_id u, u_username u))
        (users (db (fst (joinRoom nothing_fails bob_created_meanwhile 100 (startup empty_db) socket1
              (Some ''bob'') (Some ''general''))))) = [(1, ''bob'')]"
proof -
  have names: "''bob'' \<noteq> []" "''general'' \<noteq> []"
    by simp_all
  have ok: "\<not> nothing_fails FindByUsername" "\<not> nothing_fails CreateUser" "\<not> nothing_fails RefetchUser"
    by (simp_all add: nothing_fails_def)
  have unknown: "''bob'' \<notin> set (map u_username (users (db (startup empty_db))))"
    by (simp add: startup_def empty_db_def)
  have meanwhile: "find (\<lambda>u. u_username u = ''bob'') (users (bob_created_meanwhile (db (startup empty_db)))) = Some bob_row"
    by (simp add: startup_def empty_db_def bob_created_meanwhile_def bob_row_def)
  have rows: "map (\<lambda>u. (u_id u, u_username u)) (users (bob_created_meanwhile (db (startup empty_db)))) = [(1, ''bob'')]"
    by (simp add: startup_def empty_db_def bob_created_meanwhile_def bob_row_def)
  have sid: "socket_id socket1 = ''s1''" "u_id bob_row = 1"
    by (simp_all add: socket1_def bob_row_def)
  note inst = join_refetches_on_conflict [where flt = nothing_fails and interleaved = bob_created_meanwhile
      and st = "startup empty_db" and username = "''bob''" and room = "''general''"
      and existing = bob_row and now = 100 and sock = socket1, OF names ok unknown meanwhile]
  note accepted = inst [THEN conjunct2, THEN conjunct2, THEN conjunct1]
  note emitted = inst [THEN conjunct2, THEN conjunct2, THEN conjunct2, THEN conjunct2, THEN conjunct1]
  note table = inst [THEN conjunct2, THEN conjunct2, THEN conjunct2, THEN conjunct2, THEN conjunct2]
  show ?thesis
    using unknown meanwhile accepted emitted [unfolded sid] table [unfolded rows]
    by (intro conjI)
qed





section \<open>Registration with a taken username\<close>

lemma findFreeSuffix_error:
  "findFreeSuffix flt d username counter = Inl e \<Longrightarrow> e = connection_lost"
proof (induction flt d username counter rule: findFreeSuffix.induct)
  case (1 flt d username counter)
  show ?case
  proof (cases "User_findByUsername (flt (FindSuffixed counter)) d (username @ decimal (int counter))")
    case (Inl e')
    then have "e' = connection_lost"
      by (auto simp: User_findByUsername_def split: if_splits)
    with "1.prems" Inl show ?thesis
      by (subst (asm) findFreeSuffix.simps) simp
  next
    case (Inr found)
    show ?thesis
    proof (cases found)
      case None
      with "1.prems" Inr show ?thesis
        by (subst (asm) findFreeSuffix.simps) simp
    next
      case (Some taken)
      with "1.prems" Inr have "findFreeSuffix flt d username (Suc counter) = Inl e"
        by (subst (asm) findFreeSuffix.simps) simp
      with "1.IH" Inr Some show ?thesis by simp
    qed
  qed
qed

text \<open>
  The search itself does what it is meant to: when it ends without an error, the name
  it has found carries the smallest counter from the start value on whose suffixed name
  is not taken.
\<close>

lemma findFreeSuffix_free:
  "findFreeSuffix flt d username counter = Inr name \<Longrightarrow>
     name \<notin> set (map u_username (users d)) \<and>
     (\<exists>k\<ge>counter. name = username @ decimal (int k) \<and>
        (\<forall>j. counter \<le> j \<and> j < k \<longrightarrow> username @ decimal (int j) \<in> set (map u_username (users d))))"
proof (induction flt d username counter rule: findFreeSuffix.induct)
  case (1 flt d username counter)
  show ?case
  proof (cases "User_findByUsername (flt (FindSuffixed counter)) d (username @ decimal (int counter))")
    case (Inl e')
    with "1.prems" show ?thesis
      by (subst (asm) findFreeSuffix.simps) simp
  next
    case (Inr found)
    show ?thesis
    proof (cases found)
      case None
      with "1.prems" Inr have name: "name = username @ decimal (int counter)"
        by (subst (asm) findFreeSuffix.simps) simp
      from Inr None have "find (\<lambda>u. u_username u = username @ decimal (int counter)) (users d) = None"
        by (auto simp: User_findByUsername_def split: if_splits)
      then have "username @ decimal (int counter) \<notin> set (map u_username (users d))"
        by (auto simp: find_None_iff)
      with name show ?thesis by auto
    next
      case (Some taken)
      from Inr Some have "find (\<lambda>u. u_username u = username @ decimal (int counter)) (users d) = Some taken"
        by (auto simp: User_findByUsername_def split: if_splits)
      then have "taken \<in> set (users d)" "u_username taken = username @ decimal (int counter)"
        by (auto simp: find_Some_iff)
      then have here: "username @ decimal (int counter) \<in> set (map u_username (users d))"
        by force
      from "1.prems" Inr Some have "findFreeSuffix flt d username (Suc counter) = Inr name"
        by (subst (asm) findFreeSuffix.simps) simp
      with "1.IH" Inr Some obtain k where k: "Suc counter \<le> k" "name = username @ decimal (int k)"
          "\<forall>j. Suc counter \<le> j \<and> j < k \<longrightarrow> username @ decimal (int j) \<in> set (map u_username (users d))"
        and free: "name \<notin> set (map u_username (users d))"
        by auto
      have "username @ decimal (int j) \<in> set (map u_username (users d))" if "counter \<le> j" "j < k" for j
      proof (cases "j = counter")
        case True
        with here show ?thesis by simp
      next
        case False
        with that k(3) show ?thesis by (simp add: Suc_leI)
      qed
      with k free show ?thesis
        using Suc_leD by blast
    qed
  qed
qed

lemma register_catch_not_duplicate:
  "register_catch connection_lost = Rejected 500 ''Server error during registration''"
  "register_catch (TypeError m) = Rejected 500 ''Server error during registration''"
  by (simp_all add: register_catch_def connection_lost_def)

text \<open>
  C1 does not hold of the code. When the local part of the email is a taken username
  (and the email is new and the first two lookups succeed), the handler does search for
  the first free suffixed name, but then assigns it to \<open>username\<close>, which is declared
  \<open>const\<close>: the assignment throws, the \<open>catch\<close> answers 500, no user is created and the
  session is not set.
\<close>

theorem register_collision_answers_500:
  assumes "email \<noteq> []" and "6 \<le> length password"
    and "\<not> flt FindByEmail" and "\<not> flt FindByUsername"
    and "email \<notin> set (map u_email (users d))"
    and "takeWhile (\<lambda>c. c \<noteq> CHR ''@'') email \<in> set (map u_username (users d))"
  shows "register flt now d sess (Some email) (Some password) =
           (Rejected 500 ''Server error during registration'', sess, d)"
proof -
  let ?username = "takeWhile (\<lambda>c. c \<noteq> CHR ''@'') email"
  have pw: "password \<noteq> []" "\<not> length password < 6"
    using assms(2) by auto
  have e: "User_findByEmail (flt FindByEmail) d email = Inr None"
    using assms(3,5) by (auto simp: User_findByEmail_def find_None_iff)
  obtain existing where u: "User_findByUsername (flt FindByUsername) d ?username = Inr (Some existing)"
  proof -
    from assms(6) have "\<exists>u \<in> set (users d). u_username u = ?username"
      by auto
    then have "find (\<lambda>u. u_username u = ?username) (users d) \<noteq> None"
      unfolding find_None_iff by blast
    with assms(4) that show ?thesis
      by (auto simp: User_findByUsername_def)
  qed
  have "register_catch (case findFreeSuffix flt d ?username 1 of
      Inl e \<Rightarrow> e | Inr newUsername \<Rightarrow> TypeError ''Assignment to constant variable.'')
      = Rejected 500 ''Server error during registration''"
    using findFreeSuffix_error [of flt d ?username 1]
    by (cases "findFreeSuffix flt d ?username 1") (simp_all add: register_catch_not_duplicate)
  then show ?thesis
    using assms(1) pw e u
    by (cases "findFreeSuffix flt d ?username 1") (simp_all add: register_def Let_def)
qed

theorem register_collision_at_alice:
  "findFreeSuffix nothing_fails alice_db ''alice'' 1 = Inr ''alice1''
   \<and> register nothing_fails 100 alice_db \<lparr>session_userId = None, session_username = None\<rparr>
        (Some ''alice@example.org'') (Some ''secret1'') =
       (Rejected 500 ''Server error during registration'',
        \<lparr>session_userId = None, session_username = None\<rparr>, alice_db)"
proof -
  have suffix: "findFreeSuffix nothing_fails alice_db ''alice'' 1 = Inr ''alice1''"
    by code_simp
  have ok: "\<not> nothing_fails FindByEmail" "\<not> nothing_fails FindByUsername"
    by (simp_all add: nothing_fails_def)
  have new: "''alice@example.org'' \<notin> set (map u_email (users alice_db))"
    by (simp add: alice_db_def alice_row_def)
  have taken: "takeWhile (\<lambda>c. c \<noteq> CHR ''@'') ''alice@example.org'' \<in> set (map u_username (users alice_db))"
    by (simp add: alice_db_def alice_row_def)
  have "register nothing_fails 100 alice_db \<lparr>session_userId = None, session_username = None\<rparr>
        (Some ''alice@example.org'') (Some ''secret1'') =
       (Rejected 500 ''Server error during registration'',
        \<lparr>session_userId = None, session_username = None\<rparr>, alice_db)"
    by (rule register_collision_answers_500 [OF _ _ ok new taken]) simp_all
  with suffix show ?thesis by simp
qed

end
